theory Spec2Isabelle
  imports Main "HOL-Library.Multiset"
begin

section \<open>Metadata Cache (src/electron/database.ts)\<close>

text \<open>
  The SQLite tables \<open>projects\<close> and \<open>images\<close> are lists of rows in rowid order.
  Timestamps are milliseconds (\<open>Date.now()\<close>, \<open>mtimeMs\<close>) as integers; the columns are
  declared \<open>INTEGER\<close>. A statement that raises leaves the tables as they were before it,
  and the exception reaches the caller: every writing operation returns the error, if
  any, together with the database after the call.
\<close>

record image_record =
  image_id :: string
  project_id :: string
  file_path :: string
  file_name :: string
  file_size :: nat
  width :: nat
  height :: nat
  created_at :: int
  modified_at :: int
  rating :: int

record project_row =
  p_id :: string
  p_name :: string
  p_path :: string
  p_created_at :: int
  p_last_opened :: int
  p_cache_size :: int

record database =
  projects :: "project_row list"
  images :: "image_record list"
  operationCount :: nat

text \<open>\<open>checkOptimization\<close>: \<open>pragma optimize\<close> changes no row, so only the counter is kept.\<close>

definition checkOptimization :: "database \<Rightarrow> database" where
  "checkOptimization db =
     (let c = operationCount db + 1
      in if c \<ge> 100 then db\<lparr>operationCount := 0\<rparr> else db\<lparr>operationCount := c\<rparr>)"

text \<open>
  \<open>upsertProject\<close>: \<open>INSERT OR REPLACE INTO projects (id, name, path, created_at,
  last_opened) VALUES (?, ?, ?, COALESCE((SELECT created_at FROM projects WHERE id = ?), now),
  now)\<close>. The sub-select is evaluated on the table as it is before the statement; REPLACE
  then deletes every row that collides on the primary key \<open>id\<close> or on the UNIQUE column
  \<open>path\<close>, and the new row is inserted with \<open>cache_size\<close> at its default 0.
\<close>

definition select_created_at :: "project_row list \<Rightarrow> string \<Rightarrow> int option" where
  "select_created_at rows i = map_option p_created_at (find (\<lambda>r. p_id r = i) rows)"

definition upsertProject :: "database \<Rightarrow> int \<Rightarrow> string \<Rightarrow> string \<Rightarrow> string \<Rightarrow> database" where
  "upsertProject db now i name path =
     (let created = (case select_created_at (projects db) i of Some c \<Rightarrow> c | None \<Rightarrow> now);
          kept = filter (\<lambda>r. p_id r \<noteq> i \<and> p_path r \<noteq> path) (projects db)
      in db\<lparr>projects := kept @
            [\<lparr>p_id = i, p_name = name, p_path = path, p_created_at = created,
              p_last_opened = now, p_cache_size = 0\<rparr>]\<rparr>)"

definition get_project :: "database \<Rightarrow> string \<Rightarrow> project_row option" where
  "get_project db i = find (\<lambda>r. p_id r = i) (projects db)"

datatype db_error = SqliteError string

text \<open>
  The full-text index and its triggers. \<open>images_fts\<close> is an FTS5 table with external
  content \<open>images\<close> and the columns \<open>file_name\<close> and \<open>tags\<close>; the table \<open>images\<close> has no column
  \<open>tags\<close>. The trigger after an INSERT gives the index its values in the statement and
  succeeds. The triggers after an UPDATE and after a DELETE change or remove an index
  row, for which FTS5 reads the row's old values from the content table under both
  column names: the read fails with \<open>no such column: T.tags\<close>, the trigger raises, and
  the statement that fired it is undone. The contents of the index are not modelled.
\<close>

definition images_fts_insert :: "image_record \<Rightarrow> db_error option" where
  "images_fts_insert new = None"

definition images_fts_update :: "image_record \<Rightarrow> image_record \<Rightarrow> db_error option" where
  "images_fts_update old new = Some (SqliteError ''no such column: T.tags'')"

definition images_fts_delete :: "image_record \<Rightarrow> db_error option" where
  "images_fts_delete old = Some (SqliteError ''no such column: T.tags'')"

text \<open>
  \<open>upsertImage\<close>: \<open>INSERT INTO images (...) VALUES (...) ON CONFLICT(id) DO UPDATE SET
  file_size, width, height, modified_at = excluded...., rating = CASE WHEN
  excluded.modified_at > modified_at THEN excluded.rating ELSE rating END
  WHERE excluded.modified_at > modified_at\<close>. The only uniqueness constraint of the table
  is the primary key \<open>id\<close>. An inserted row fires \<open>images_fts_insert\<close>, an updated row
  \<open>images_fts_update\<close>; a conflicting row that fails the WHERE clause is left alone and
  fires nothing. \<open>checkOptimization\<close> runs only when the statement did not raise.
\<close>

fun upsert_image_row :: "image_record list \<Rightarrow> image_record \<Rightarrow> db_error + image_record list" where
  "upsert_image_row [] img =
     (case images_fts_insert img of Some e \<Rightarrow> Inl e | None \<Rightarrow> Inr [img])"
| "upsert_image_row (r # rs) img =
     (if image_id r = image_id img
      then (if modified_at img > modified_at r
            then (let r' = r\<lparr>file_size := file_size img,
                              width := width img,
                              height := height img,
                              modified_at := modified_at img,
                              rating := (if modified_at img > modified_at r
                                         then rating img else rating r)\<rparr>
                  in case images_fts_update r r' of
                       Some e \<Rightarrow> Inl e
                     | None \<Rightarrow> Inr (r' # rs))
            else Inr (r # rs))
      else (case upsert_image_row rs img of
              Inl e \<Rightarrow> Inl e
            | Inr rs' \<Rightarrow> Inr (r # rs')))"

definition upsertImage :: "database \<Rightarrow> image_record \<Rightarrow> db_error option \<times> database" where
  "upsertImage db img =
     (case upsert_image_row (images db) img of
        Inl e \<Rightarrow> (Some e, db)
      | Inr rows \<Rightarrow> (None, checkOptimization (db\<lparr>images := rows\<rparr>)))"

text \<open>
  \<open>upsertImagesBatch\<close>: the statement of the batch has no \<open>rating\<close> in its SET list. The
  loop runs it once per record inside one transaction: the first statement that raises
  ends the loop and the transaction is rolled back, so that the rows inserted for earlier
  records of the batch are gone as well. \<open>checkOptimization\<close> is called once, after a
  transaction that committed.
\<close>

fun batch_upsert_row :: "image_record list \<Rightarrow> image_record \<Rightarrow> db_error + image_record list" where
  "batch_upsert_row [] img =
     (case images_fts_insert img of Some e \<Rightarrow> Inl e | None \<Rightarrow> Inr [img])"
| "batch_upsert_row (r # rs) img =
     (if image_id r = image_id img
      then (if modified_at img > modified_at r
            then (let r' = r\<lparr>file_size := file_size img,
                              width := width img,
                              height := height img,
                              modified_at := modified_at img\<rparr>
                  in case images_fts_update r r' of
                       Some e \<Rightarrow> Inl e
                     | None \<Rightarrow> Inr (r' # rs))
            else Inr (r # rs))
      else (case batch_upsert_row rs img of
              Inl e \<Rightarrow> Inl e
            | Inr rs' \<Rightarrow> Inr (r # rs')))"

fun batch_transaction :: "image_record list \<Rightarrow> image_record list \<Rightarrow> db_error + image_record list" where
  "batch_transaction rows [] = Inr rows"
| "batch_transaction rows (img # imgs) =
     (case batch_upsert_row rows img of
        Inl e \<Rightarrow> Inl e
      | Inr rows' \<Rightarrow> batch_transaction rows' imgs)"

definition upsertImagesBatch :: "database \<Rightarrow> image_record list \<Rightarrow> db_error option \<times> database" where
  "upsertImagesBatch db imgs =
     (case batch_transaction (images db) imgs of
        Inl e \<Rightarrow> (Some e, db)
      | Inr rows \<Rightarrow> (None, checkOptimization (db\<lparr>images := rows\<rparr>)))"

definition get_image :: "database \<Rightarrow> string \<Rightarrow> image_record option" where
  "get_image db i = find (\<lambda>r. image_id r = i) (images db)"

text \<open>
  \<open>getImagesByProject\<close>: \<open>SELECT * FROM images WHERE project_id = ? ORDER BY modified_at
  DESC\<close>; rows with equal \<open>modified_at\<close> are kept in table order.
\<close>

definition getImagesByProject :: "database \<Rightarrow> string \<Rightarrow> image_record list" where
  "getImagesByProject db pid =
     sort_key (\<lambda>r. - modified_at r) (filter (\<lambda>r. project_id r = pid) (images db))"

text \<open>
  The statement run by the background diff for a vanished file,
  \<open>DELETE FROM images WHERE file_name = ? AND project_id = ?\<close>. The first row it deletes
  fires \<open>images_fts_delete\<close>; when no row matches, nothing fires.
\<close>

definition delete_image_by_name :: "database \<Rightarrow> string \<Rightarrow> string \<Rightarrow> db_error option \<times> database" where
  "delete_image_by_name db name pid =
     (case filter (\<lambda>r. file_name r = name \<and> project_id r = pid) (images db) of
        [] \<Rightarrow> (None, db)
      | victim # others \<Rightarrow>
          (case images_fts_delete victim of
             Some e \<Rightarrow> (Some e, db)
           | None \<Rightarrow>
               (None, db\<lparr>images := filter (\<lambda>r. \<not> (file_name r = name \<and> project_id r = pid))
                                    (images db)\<rparr>)))"

section \<open>Files, paths and the image codec\<close>

text \<open>
  The disk is a map from absolute paths to regular files. Paths are POSIX paths, and
  \<open>path.join\<close> is Node's \<open>path.posix.join\<close>: the non-empty arguments are joined with \<open>/\<close>
  and the result is normalised (empty and \<open>.\<close> segments dropped, \<open>..\<close> resolved, one
  trailing separator kept). The image library (sharp) is a parameter: what its decoder
  reports for some bytes, what an encoding pipeline produces for them, and what the JSON
  reader returns. A pipeline that fails may have written a prefix of its output:
  \<open>toFile\<close> is handed the destination path and writes to it directly.
\<close>

type_synonym bytes = string

record disk_file =
  data :: bytes
  mtimeMs :: int
  birthtimeMs :: int

type_synonym filesystem = "string \<rightharpoonup> disk_file"

datatype io_error = ENOENT | DecodeError | EncodeError | JsonError

record image_meta =
  m_width :: "nat option"
  m_height :: "nat option"

record sidecar_json =
  j_rating :: "int option"
  j_tags :: "string list option"

datatype fit = Cover | Inside

datatype output_format = Webp nat nat | Jpeg nat bool bool

record pipeline =
  resize :: "(nat \<times> nat \<times> fit \<times> bool) option"
  format :: output_format

datatype render = Rendered bytes | Failed "bytes option"

record codec =
  read_metadata :: "bytes \<Rightarrow> image_meta option"
  run_pipeline :: "pipeline \<Rightarrow> bytes \<Rightarrow> render"
  parse_json :: "bytes \<Rightarrow> sidecar_json option option"

text \<open>The segments of a path: the pieces between separators.\<close>

fun split_sep :: "string \<Rightarrow> string list" where
  "split_sep [] = [[]]"
| "split_sep (c # cs) =
     (if c = CHR ''/'' then [] # split_sep cs
      else (case split_sep cs of
              [] \<Rightarrow> [[c]]
            | seg # segs \<Rightarrow> (c # seg) # segs))"

fun join_sep :: "string list \<Rightarrow> string" where
  "join_sep [] = []"
| "join_sep [seg] = seg"
| "join_sep (seg # segs) = seg @ CHR ''/'' # join_sep segs"

text \<open>
  One segment of \<open>normalizeString\<close>: an empty or \<open>.\<close> segment is dropped; \<open>..\<close> removes
  the last kept segment unless there is none or it is \<open>..\<close> itself, in which case it is
  kept for a relative path and dropped for an absolute one; any other segment is kept.
\<close>

definition normalize_step :: "bool \<Rightarrow> string list \<Rightarrow> string \<Rightarrow> string list" where
  "normalize_step allowAboveRoot kept seg =
     (if seg = [] \<or> seg = ''.'' then kept
      else if seg = ''..''
      then (if kept \<noteq> [] \<and> last kept \<noteq> ''..'' then butlast kept
            else if allowAboveRoot then kept @ [''..''] else kept)
      else kept @ [seg])"

definition path_normalize :: "string \<Rightarrow> string" where
  "path_normalize p =
     (if p = [] then ''.''
      else (let isAbsolute = (hd p = CHR ''/'');
                trailingSeparator = (last p = CHR ''/'');
                q = join_sep (foldl (normalize_step (\<not> isAbsolute)) [] (split_sep p))
            in if q = []
               then (if isAbsolute then ''/'' else if trailingSeparator then ''./'' else ''.'')
               else (if isAbsolute then ''/'' else []) @ q
                    @ (if trailingSeparator then ''/'' else [])))"

definition path_join :: "string \<Rightarrow> string \<Rightarrow> string" where
  "path_join a b =
     (let joined = join_sep (filter (\<lambda>arg. arg \<noteq> []) [a, b])
      in if joined = [] then ''.'' else path_normalize joined)"

text \<open>
  A name as \<open>fs.readdir\<close> returns it: not empty, not \<open>.\<close> or \<open>..\<close>, without a separator.
  A folder path as the folder dialog returns it: absolute, without a trailing separator,
  and already normalised.
\<close>

definition plain_name :: "string \<Rightarrow> bool" where
  "plain_name f = (f \<noteq> [] \<and> f \<noteq> ''.'' \<and> f \<noteq> ''..'' \<and> CHR ''/'' \<notin> set f)"

definition normal_folder :: "string \<Rightarrow> bool" where
  "normal_folder d = (d \<noteq> [] \<and> hd d = CHR ''/'' \<and> last d \<noteq> CHR ''/'' \<and> path_normalize d = d)"

definition pathExists :: "filesystem \<Rightarrow> string \<Rightarrow> bool" where
  "pathExists fs p = (fs p \<noteq> None)"

definition fs_stat :: "filesystem \<Rightarrow> string \<Rightarrow> io_error + disk_file" where
  "fs_stat fs p = (case fs p of None \<Rightarrow> Inl ENOENT | Some f \<Rightarrow> Inr f)"

definition write_file :: "filesystem \<Rightarrow> string \<Rightarrow> bytes \<Rightarrow> int \<Rightarrow> filesystem" where
  "write_file fs p out now =
     fs(p \<mapsto> \<lparr>data = out, mtimeMs = now,
                birthtimeMs = (case fs p of Some old \<Rightarrow> birthtimeMs old | None \<Rightarrow> now)\<rparr>)"

definition sharp_metadata :: "codec \<Rightarrow> filesystem \<Rightarrow> string \<Rightarrow> io_error + image_meta" where
  "sharp_metadata cd fs p =
     (case fs p of
        None \<Rightarrow> Inl ENOENT
      | Some f \<Rightarrow> (case read_metadata cd (data f) of
                    None \<Rightarrow> Inl DecodeError
                  | Some m \<Rightarrow> Inr m))"

definition sharp_toFile ::
  "codec \<Rightarrow> int \<Rightarrow> filesystem \<Rightarrow> string \<Rightarrow> pipeline \<Rightarrow> string \<Rightarrow> io_error option \<times> filesystem" where
  "sharp_toFile cd now fs src pl dst =
     (case fs src of
        None \<Rightarrow> (Some ENOENT, fs)
      | Some f \<Rightarrow> (case run_pipeline cd pl (data f) of
                    Rendered out \<Rightarrow> (None, write_file fs dst out now)
                  | Failed None \<Rightarrow> (Some EncodeError, fs)
                  | Failed (Some part) \<Rightarrow> (Some EncodeError, write_file fs dst part now)))"

text \<open>\<open>x || 0\<close> on an optional number.\<close>

definition orZero :: "nat option \<Rightarrow> nat" where
  "orZero x = (case x of Some n \<Rightarrow> n | None \<Rightarrow> 0)"

definition maxDimension :: "image_meta \<Rightarrow> nat" where
  "maxDimension metadata = max (orZero (m_width metadata)) (orZero (m_height metadata))"

section \<open>Derivative Store (src/electron/sidecar.ts)\<close>

record sidecar_paths =
  root :: string
  thumbnails :: string
  previews :: string
  metadata :: string

record sidecar_manager =
  folderPath :: string
  sidecarRoot :: string
  paths :: sidecar_paths

definition SidecarManager :: "string \<Rightarrow> sidecar_manager" where
  "SidecarManager folder =
     (let sroot = path_join folder ''.capture-open''
      in \<lparr>folderPath = folder, sidecarRoot = sroot,
          paths = \<lparr>root = sroot,
                    thumbnails = path_join sroot ''thumbnails'',
                    previews = path_join sroot ''previews'',
                    metadata = path_join sroot ''metadata''\<rparr>\<rparr>)"

text \<open>
  \<open>initialize\<close>: directories and their attributes (\<open>ensureDir\<close>, the hidden flag set on
  Windows) are not part of the disk model, so what remains is the \<open>.gitignore\<close> written
  when it is absent.
\<close>

definition initialize :: "int \<Rightarrow> sidecar_manager \<Rightarrow> filesystem \<Rightarrow> filesystem" where
  "initialize now sm fs =
     (let gitignorePath = path_join (sidecarRoot sm) ''.gitignore''
      in if \<not> pathExists fs gitignorePath
         then write_file fs gitignorePath
                (''thumbnails/'' @ [CHR 0x0A] @ ''previews/'' @ [CHR 0x0A]) now
         else fs)"

definition getThumbnailPath :: "sidecar_manager \<Rightarrow> string \<Rightarrow> string" where
  "getThumbnailPath sm imageName = path_join (thumbnails (paths sm)) (imageName @ ''.thumb.webp'')"

definition getPreviewPath :: "sidecar_manager \<Rightarrow> string \<Rightarrow> string" where
  "getPreviewPath sm imageName = path_join (previews (paths sm)) (imageName @ ''.preview.jpg'')"

definition getStandardPreviewPath :: "sidecar_manager \<Rightarrow> string \<Rightarrow> string" where
  "getStandardPreviewPath sm imageName =
     path_join (previews (paths sm)) (imageName @ ''.standard.jpg'')"

definition getFullSizePreviewPath :: "sidecar_manager \<Rightarrow> string \<Rightarrow> string" where
  "getFullSizePreviewPath sm imageName = path_join (previews (paths sm)) (imageName @ ''.full.jpg'')"

definition getMetadataPath :: "sidecar_manager \<Rightarrow> string \<Rightarrow> string" where
  "getMetadataPath sm imageName = path_join (metadata (paths sm)) (imageName @ ''.json'')"

text \<open>
  The block shared by the three generators:
  \<open>if (await fs.pathExists(d)) { stat source; stat d; if (d.mtime >= source.mtime) return d }\<close>.
  \<open>Inr True\<close> is the early return, \<open>Inr False\<close> falls through to the encoder, \<open>Inl\<close> is
  a rejected \<open>fs.stat\<close>.
\<close>

definition derivative_fresh :: "filesystem \<Rightarrow> string \<Rightarrow> string \<Rightarrow> io_error + bool" where
  "derivative_fresh fs imagePath derivPath =
     (if pathExists fs derivPath
      then (case fs_stat fs imagePath of
              Inl e \<Rightarrow> Inl e
            | Inr imageStat \<Rightarrow>
                (case fs_stat fs derivPath of
                   Inl e \<Rightarrow> Inl e
                 | Inr derivStat \<Rightarrow> Inr (mtimeMs derivStat \<ge> mtimeMs imageStat)))
      else Inr False)"

definition thumbnail_pipeline :: pipeline where
  "thumbnail_pipeline = \<lparr>resize = Some (256, 256, Cover, False), format = Webp 75 4\<rparr>"

definition standard_pipeline :: "nat \<Rightarrow> pipeline" where
  "standard_pipeline quality =
     \<lparr>resize = Some (1600, 1600, Inside, True), format = Jpeg quality True True\<rparr>"

definition full_pipeline :: pipeline where
  "full_pipeline = \<lparr>resize = None, format = Jpeg 92 True True\<rparr>"

definition generateThumbnail ::
  "codec \<Rightarrow> int \<Rightarrow> sidecar_manager \<Rightarrow> filesystem \<Rightarrow> string \<Rightarrow> string
   \<Rightarrow> (io_error + string) \<times> filesystem" where
  "generateThumbnail cd now sm fs imagePath imageName =
     (let thumbPath = getThumbnailPath sm imageName
      in case derivative_fresh fs imagePath thumbPath of
           Inl e \<Rightarrow> (Inl e, fs)
         | Inr True \<Rightarrow> (Inr thumbPath, fs)
         | Inr False \<Rightarrow>
             (case sharp_toFile cd now fs imagePath thumbnail_pipeline thumbPath of
                (Some e, fs') \<Rightarrow> (Inl e, fs')
              | (None, fs') \<Rightarrow> (Inr thumbPath, fs')))"

definition generateStandardPreview ::
  "codec \<Rightarrow> int \<Rightarrow> sidecar_manager \<Rightarrow> filesystem \<Rightarrow> string \<Rightarrow> string
   \<Rightarrow> (io_error + string) \<times> filesystem" where
  "generateStandardPreview cd now sm fs imagePath imageName =
     (let previewPath = getStandardPreviewPath sm imageName
      in case derivative_fresh fs imagePath previewPath of
           Inl e \<Rightarrow> (Inl e, fs)
         | Inr True \<Rightarrow> (Inr previewPath, fs)
         | Inr False \<Rightarrow>
             (case sharp_metadata cd fs imagePath of
                Inl e \<Rightarrow> (Inl e, fs)
              | Inr meta \<Rightarrow>
                  (let quality = (if maxDimension meta \<le> 1600 then 92 else 80)
                   in case sharp_toFile cd now fs imagePath (standard_pipeline quality)
                             previewPath of
                        (Some e, fs') \<Rightarrow> (Inl e, fs')
                      | (None, fs') \<Rightarrow> (Inr previewPath, fs'))))"

definition generateFullSizePreview ::
  "codec \<Rightarrow> int \<Rightarrow> sidecar_manager \<Rightarrow> filesystem \<Rightarrow> string \<Rightarrow> string
   \<Rightarrow> (io_error + string option) \<times> filesystem" where
  "generateFullSizePreview cd now sm fs imagePath imageName =
     (case sharp_metadata cd fs imagePath of
        Inl e \<Rightarrow> (Inl e, fs)
      | Inr meta \<Rightarrow>
          if maxDimension meta \<le> 1600 then (Inr None, fs)
          else
            (let previewPath = getFullSizePreviewPath sm imageName
             in case derivative_fresh fs imagePath previewPath of
                  Inl e \<Rightarrow> (Inl e, fs)
                | Inr True \<Rightarrow> (Inr (Some previewPath), fs)
                | Inr False \<Rightarrow>
                    (case sharp_toFile cd now fs imagePath full_pipeline previewPath of
                       (Some e, fs') \<Rightarrow> (Inl e, fs')
                     | (None, fs') \<Rightarrow> (Inr (Some previewPath), fs'))))"

text \<open>\<open>loadMetadata\<close>: \<open>null\<close> when the sidecar file is absent, otherwise \<open>fs.readJSON\<close>.\<close>

definition loadMetadata ::
  "codec \<Rightarrow> sidecar_manager \<Rightarrow> filesystem \<Rightarrow> string \<Rightarrow> io_error + sidecar_json option" where
  "loadMetadata cd sm fs imageName =
     (case fs (getMetadataPath sm imageName) of
        None \<Rightarrow> Inr None
      | Some f \<Rightarrow> (case parse_json cd (data f) of
                    None \<Rightarrow> Inl JsonError
                  | Some j \<Rightarrow> Inr j))"

text \<open>The three tiers behind one entry point, each returning the path or \<open>null\<close>.\<close>

datatype tier = Thumbnail | StandardPreview | FullPreview

definition derivative_path :: "tier \<Rightarrow> sidecar_manager \<Rightarrow> string \<Rightarrow> string" where
  "derivative_path t sm imageName =
     (case t of
        Thumbnail \<Rightarrow> getThumbnailPath sm imageName
      | StandardPreview \<Rightarrow> getStandardPreviewPath sm imageName
      | FullPreview \<Rightarrow> getFullSizePreviewPath sm imageName)"

definition generate ::
  "tier \<Rightarrow> codec \<Rightarrow> int \<Rightarrow> sidecar_manager \<Rightarrow> filesystem \<Rightarrow> string \<Rightarrow> string
   \<Rightarrow> (io_error + string option) \<times> filesystem" where
  "generate t cd now sm fs imagePath imageName =
     (case t of
        Thumbnail \<Rightarrow>
          (case generateThumbnail cd now sm fs imagePath imageName of
             (r, fs') \<Rightarrow> (map_sum (\<lambda>e. e) Some r, fs'))
      | StandardPreview \<Rightarrow>
          (case generateStandardPreview cd now sm fs imagePath imageName of
             (r, fs') \<Rightarrow> (map_sum (\<lambda>e. e) Some r, fs'))
      | FullPreview \<Rightarrow> generateFullSizePreview cd now sm fs imagePath imageName)"

section \<open>Derivative Server (src/electron/thumbnail-server.ts)\<close>

record thumbnail_server =
  port :: nat
  server_managers :: "string \<rightharpoonup> sidecar_manager"

datatype response =
    Ok200 string string bytes
  | Status404 string
  | Status500 string

text \<open>
  A successful response carries the \<open>Cache-Control\<close> and \<open>Content-Type\<close> headers and the
  bytes of the streamed file. \<open>fs.pathExists\<close> never rejects and the path getters are
  total, so the \<open>catch\<close> branch (status 500) is not reached: the routes stream a file
  only after \<open>pathExists\<close> has found it, and the case of a missing file in \<open>stream_file\<close>
  is there to make the function total.
\<close>

definition stream_file :: "filesystem \<Rightarrow> string \<Rightarrow> response" where
  "stream_file fs p =
     (case fs p of
        Some f \<Rightarrow> Ok200 ''public, max-age=31536000'' ''image/jpeg'' (data f)
      | None \<Rightarrow> Status500 ''Internal server error'')"

definition get_standard :: "thumbnail_server \<Rightarrow> filesystem \<Rightarrow> string \<Rightarrow> string \<Rightarrow> response" where
  "get_standard srv fs projectId filename =
     (case server_managers srv projectId of
        None \<Rightarrow> Status404 ''Project not found''
      | Some manager \<Rightarrow>
          (let standardPath = getStandardPreviewPath manager filename
           in if \<not> pathExists fs standardPath
              then Status404 ''Standard preview not found''
              else stream_file fs standardPath))"

definition get_full :: "thumbnail_server \<Rightarrow> filesystem \<Rightarrow> string \<Rightarrow> string \<Rightarrow> response" where
  "get_full srv fs projectId filename =
     (case server_managers srv projectId of
        None \<Rightarrow> Status404 ''Project not found''
      | Some manager \<Rightarrow>
          (let fullPath = getFullSizePreviewPath manager filename
           in if \<not> pathExists fs fullPath
              then (let standardPath = getStandardPreviewPath manager filename
                    in if pathExists fs standardPath
                       then stream_file fs standardPath
                       else Status404 ''Full preview not found'')
              else stream_file fs fullPath))"

definition registerSidecarManager ::
  "thumbnail_server \<Rightarrow> string \<Rightarrow> sidecar_manager \<Rightarrow> thumbnail_server" where
  "registerSidecarManager srv projectId manager =
     srv\<lparr>server_managers := (server_managers srv)(projectId \<mapsto> manager)\<rparr>"

section \<open>Project list (store.ts, the first file in part 001 of src/unnamed)\<close>

text \<open>Decimal rendering of a number inside a template string.\<close>

definition digit_char :: "nat \<Rightarrow> char" where
  "digit_char n = ''0123456789'' ! (n mod 10)"

function decimal :: "nat \<Rightarrow> string" where
  "decimal n = (if 10 \<le> n then decimal (n div 10) @ [digit_char n] else [digit_char n])"
  by pat_completeness auto
termination
  by (relation "measure (\<lambda>n. n)") auto

declare decimal.simps [simp del]

definition number_toString :: "int \<Rightarrow> string" where
  "number_toString x = (if 0 \<le> x then decimal (nat x) else CHR ''-'' # decimal (nat (- x)))"

text \<open>\<open>path.basename\<close> on POSIX: the last segment, trailing separators ignored.\<close>

definition basename :: "string \<Rightarrow> string" where
  "basename p =
     rev (takeWhile (\<lambda>c. c \<noteq> CHR ''/'') (dropWhile (\<lambda>c. c = CHR ''/'') (rev p)))"

text \<open>
  A \<open>Project\<close> of the project list. \<open>createdAt\<close> is kept as the instant that
  \<open>new Date().toISOString()\<close> renders.
\<close>

record project =
  sp_id :: string
  sp_name :: string
  sp_path :: string
  sp_createdAt :: int

record store =
  store_projects :: "project list"

definition addProject :: "store \<Rightarrow> int \<Rightarrow> string \<Rightarrow> project \<times> store" where
  "addProject st now projectPath =
     (let name = basename projectPath;
          i = ''proj-'' @ number_toString now;
          newProject = \<lparr>sp_id = i, sp_name = name, sp_path = projectPath, sp_createdAt = now\<rparr>
      in (newProject, st\<lparr>store_projects := store_projects st @ [newProject]\<rparr>))"

definition removeProject :: "store \<Rightarrow> string \<Rightarrow> store" where
  "removeProject st i = st\<lparr>store_projects := filter (\<lambda>p. sp_id p \<noteq> i) (store_projects st)\<rparr>"

section \<open>Reconciliation Engine (the main process, second file in part 001 of src/unnamed)\<close>

text \<open>
  The record sent to the renderer. The fields \<open>standardPreview\<close> and \<open>fullPreview\<close> are
  absent from the record built in the \<open>catch\<close> branch, and \<open>date\<close> from the records built
  from cached rows; \<open>date\<close> is kept as the instant its ISO string renders.
\<close>

record display_record =
  d_id :: string
  d_name :: string
  d_path :: string
  d_thumbnail :: string
  d_standardPreview :: "string option"
  d_fullPreview :: "string option"
  d_url :: string
  d_width :: nat
  d_height :: nat
  d_rating :: int
  d_tags :: "string list"
  d_date :: "int option"

datatype ipc_message = FileAdded display_record | FileRemoved string string

text \<open>
  The state of the main process: the database, the disk, the two registries of sidecar
  managers, the folder under watch, whether a window exists, the messages sent to the
  renderer so far, and the preview jobs handed to \<open>setImmediate\<close> that have not run yet
  (manager, source path, file name).
\<close>

record engine =
  dbManager :: database
  disk :: filesystem
  sidecarManagers :: "string \<rightharpoonup> sidecar_manager"
  thumbnailServer :: thumbnail_server
  watcher :: "string option"
  mainWindow :: bool
  sent :: "ipc_message list"
  pending :: "(sidecar_manager \<times> string \<times> string) list"

definition getUrl :: "thumbnail_server \<Rightarrow> string" where
  "getUrl srv = ''http://localhost:'' @ decimal (port srv)"

text \<open>
  \<open>encodeURIComponent\<close> on the UTF-8 bytes of a name: letters, digits and
  \<open>- _ . ! ~ * ' ( )\<close> stay, every other byte becomes \<open>%XX\<close>.
\<close>

definition uri_unreserved :: "char \<Rightarrow> bool" where
  "uri_unreserved c =
     (let n = (of_char c :: nat)
      in (65 \<le> n \<and> n \<le> 90) \<or> (97 \<le> n \<and> n \<le> 122) \<or> (48 \<le> n \<and> n \<le> 57)
         \<or> n \<in> set [45, 95, 46, 33, 126, 42, 39, 40, 41])"

definition hex_digit :: "nat \<Rightarrow> char" where
  "hex_digit n = ''0123456789ABCDEF'' ! (n mod 16)"

definition encodeURIComponent :: "string \<Rightarrow> string" where
  "encodeURIComponent s =
     concat (map (\<lambda>c. if uri_unreserved c then [c]
                       else [CHR ''%'', hex_digit (of_char c div 16), hex_digit (of_char c mod 16)]) s)"

text \<open>The test \<open>/\.(jpg|jpeg|png|webp|avif)$/i\<close> on a file name.\<close>

definition to_lower :: "char \<Rightarrow> char" where
  "to_lower c =
     (let n = (of_char c :: nat) in if 65 \<le> n \<and> n \<le> 90 then char_of (n + 32) else c)"

definition ends_with :: "string \<Rightarrow> string \<Rightarrow> bool" where
  "ends_with x s = (length s \<le> length x \<and> drop (length x - length s) x = s)"

definition is_image_file :: "string \<Rightarrow> bool" where
  "is_image_file f =
     list_ex (\<lambda>ext. ends_with (map to_lower f) (CHR ''.'' # ext))
       [''jpg'', ''jpeg'', ''png'', ''webp'', ''avif'']"

text \<open>\<open>folderPath.replace(/[\\/:]/g, '_')\<close>.\<close>

definition derive_projectId :: "string \<Rightarrow> string" where
  "derive_projectId folder =
     map (\<lambda>c. if c = CHR 0x5C \<or> c = CHR ''/'' \<or> c = CHR '':'' then CHR ''_'' else c) folder"

definition orZeroInt :: "int option \<Rightarrow> int" where
  "orZeroInt x = (case x of Some n \<Rightarrow> n | None \<Rightarrow> 0)"

definition send :: "engine \<Rightarrow> ipc_message \<Rightarrow> engine" where
  "send eng msg = (if mainWindow eng then eng\<lparr>sent := sent eng @ [msg]\<rparr> else eng)"

definition tier_url :: "string \<Rightarrow> string \<Rightarrow> string \<Rightarrow> string \<Rightarrow> string" where
  "tier_url serverUrl route projectId fileName =
     serverUrl @ ''/'' @ route @ ''/'' @ projectId @ ''/'' @ encodeURIComponent fileName"

definition file_url :: "string \<Rightarrow> string" where
  "file_url fullPath =
     ''file:///'' @ map (\<lambda>c. if c = CHR 0x5C then CHR ''/'' else c) fullPath"

text \<open>The record returned by the \<open>catch\<close> branch of \<open>processImageWithSidecar\<close>.\<close>

definition fallback_record :: "int \<Rightarrow> string \<Rightarrow> string \<Rightarrow> display_record" where
  "fallback_record now fullPath fileName =
     \<lparr>d_id = fullPath, d_name = fileName, d_path = fullPath,
      d_thumbnail = file_url fullPath,
      d_standardPreview = None, d_fullPreview = None,
      d_url = file_url fullPath,
      d_width = 0, d_height = 0, d_rating = 0, d_tags = [], d_date = Some now\<rparr>"

text \<open>
  \<open>processImageWithSidecar\<close>. Any rejected step of the \<open>try\<close> block, a raising
  \<open>upsertImage\<close> included, leads to the \<open>catch\<close> branch; a thumbnail written before the
  failure stays on disk. The repeated \<open>fs.stat(fullPath)\<close> calls read the same file and
  are one read here.
\<close>

definition processImageWithSidecar ::
  "codec \<Rightarrow> int \<Rightarrow> engine \<Rightarrow> string \<Rightarrow> string \<Rightarrow> string \<Rightarrow> sidecar_manager
   \<Rightarrow> display_record \<times> engine" where
  "processImageWithSidecar cd now eng folder fileName projectId sm =
     (let fullPath = path_join folder fileName;
          serverUrl = getUrl (thumbnailServer eng)
      in case generateThumbnail cd now sm (disk eng) fullPath fileName of
           (Inl e, fs1) \<Rightarrow> (fallback_record now fullPath fileName, eng\<lparr>disk := fs1\<rparr>)
         | (Inr thumbPath, fs1) \<Rightarrow>
             (case sharp_metadata cd fs1 fullPath of
                Inl e \<Rightarrow> (fallback_record now fullPath fileName, eng\<lparr>disk := fs1\<rparr>)
              | Inr meta \<Rightarrow>
                  (case loadMetadata cd sm fs1 fileName of
                     Inl e \<Rightarrow> (fallback_record now fullPath fileName, eng\<lparr>disk := fs1\<rparr>)
                   | Inr existingMeta \<Rightarrow>
                       (case fs_stat fs1 fullPath of
                          Inl e \<Rightarrow> (fallback_record now fullPath fileName, eng\<lparr>disk := fs1\<rparr>)
                        | Inr st \<Rightarrow>
                            (let existingRating =
                                   orZeroInt (case existingMeta of None \<Rightarrow> None
                                              | Some j \<Rightarrow> j_rating j);
                                 existingTags =
                                   (case (case existingMeta of None \<Rightarrow> None
                                          | Some j \<Rightarrow> j_tags j) of
                                      None \<Rightarrow> [] | Some ts \<Rightarrow> ts);
                                 imageData =
                                   \<lparr>d_id = fullPath, d_name = fileName, d_path = fullPath,
                                    d_thumbnail = tier_url serverUrl ''thumb'' projectId fileName,
                                    d_standardPreview =
                                      Some (tier_url serverUrl ''standard'' projectId fileName),
                                    d_fullPreview =
                                      Some (tier_url serverUrl ''full'' projectId fileName),
                                    d_url = tier_url serverUrl ''preview'' projectId fileName,
                                    d_width = orZero (m_width meta),
                                    d_height = orZero (m_height meta),
                                    d_rating = existingRating,
                                    d_tags = existingTags,
                                    d_date = Some (mtimeMs st)\<rparr>;
                                 row =
                                   \<lparr>image_id = fullPath, project_id = projectId,
                                    file_path = fullPath, file_name = fileName,
                                    file_size = length (data st),
                                    width = orZero (m_width meta),
                                    height = orZero (m_height meta),
                                    created_at = birthtimeMs st,
                                    modified_at = mtimeMs st,
                                    rating = existingRating\<rparr>
                             in case upsertImage (dbManager eng) row of
                                  (Some e, db') \<Rightarrow>
                                    (fallback_record now fullPath fileName,
                                     eng\<lparr>disk := fs1, dbManager := db'\<rparr>)
                                | (None, db') \<Rightarrow>
                                    (imageData,
                                     eng\<lparr>disk := fs1, dbManager := db',
                                         pending := pending eng @ [(sm, fullPath, fileName)]\<rparr>))))))"

text \<open>The job handed to \<open>setImmediate\<close>: both previews, any rejection caught and logged.\<close>

definition generate_previews ::
  "codec \<Rightarrow> int \<Rightarrow> filesystem \<Rightarrow> sidecar_manager \<times> string \<times> string \<Rightarrow> filesystem" where
  "generate_previews cd now fs job =
     (case job of (sm, fullPath, fileName) \<Rightarrow>
        (case generateStandardPreview cd now sm fs fullPath fileName of
           (Inl e, fs1) \<Rightarrow> fs1
         | (Inr p, fs1) \<Rightarrow> snd (generateFullSizePreview cd now sm fs1 fullPath fileName)))"

definition run_pending :: "codec \<Rightarrow> int \<Rightarrow> engine \<Rightarrow> engine" where
  "run_pending cd now eng =
     eng\<lparr>disk := foldl (generate_previews cd now) (disk eng) (pending eng), pending := []\<rparr>"

text \<open>
  One batch of the diff: \<open>Promise.all(batch.map(file => processImageWithSidecar(...)))\<close>.
  The calls of a batch are started together and each works on its own file, its own
  derivative paths and its own row id; the order in which they reach the database is
  not the order of the batch. \<open>order\<close> gives, for a batch, the order in which its calls
  complete; each call is run as one step. \<open>Promise.all\<close> returns the results in the order
  of the batch.
\<close>

fun run_in_order ::
  "codec \<Rightarrow> int \<Rightarrow> engine \<Rightarrow> string \<Rightarrow> string \<Rightarrow> sidecar_manager \<Rightarrow> string list
   \<Rightarrow> (string \<times> display_record) list \<times> engine" where
  "run_in_order cd now eng folder projectId sm [] = ([], eng)"
| "run_in_order cd now eng folder projectId sm (f # fs) =
     (case processImageWithSidecar cd now eng folder f projectId sm of
        (d, eng1) \<Rightarrow>
          (case run_in_order cd now eng1 folder projectId sm fs of
             (done, eng2) \<Rightarrow> ((f, d) # done, eng2)))"

definition process_batch ::
  "(string list \<Rightarrow> string list) \<Rightarrow> codec \<Rightarrow> int \<Rightarrow> engine \<Rightarrow> string \<Rightarrow> string
   \<Rightarrow> sidecar_manager \<Rightarrow> string list \<Rightarrow> display_record list \<times> engine" where
  "process_batch order cd now eng folder projectId sm batch =
     (case run_in_order cd now eng folder projectId sm (order batch) of
        (done, eng1) \<Rightarrow> (List.map_filter (map_of done) batch, eng1))"

function process_new_files ::
  "(string list \<Rightarrow> string list) \<Rightarrow> codec \<Rightarrow> int \<Rightarrow> engine \<Rightarrow> string \<Rightarrow> string
   \<Rightarrow> sidecar_manager \<Rightarrow> string list \<Rightarrow> engine" where
  "process_new_files order cd now eng folder projectId sm newFiles =
     (if newFiles = [] then eng
      else (case process_batch order cd now eng folder projectId sm (take 10 newFiles) of
              (batchResults, eng1) \<Rightarrow>
                process_new_files order cd now (foldl send eng1 (map FileAdded batchResults))
                  folder projectId sm (drop 10 newFiles)))"
  by pat_completeness auto
termination
  by (relation "measure (\<lambda>(order, cd, now, eng, folder, projectId, sm, newFiles).
        length newFiles)") auto

declare process_new_files.simps [simp del]

text \<open>Iteration order of \<open>new Set(xs)\<close>: first occurrences, in order.\<close>

definition set_order :: "string list \<Rightarrow> string list" where
  "set_order xs = rev (remdups (rev xs))"

text \<open>
  The loop over the vanished files. A raising DELETE ends the callback: the message for
  that file and everything after it is not reached.
\<close>

fun remove_deleted :: "string \<Rightarrow> engine \<Rightarrow> string list \<Rightarrow> db_error option \<times> engine" where
  "remove_deleted projectId eng [] = (None, eng)"
| "remove_deleted projectId eng (delName # rest) =
     (case delete_image_by_name (dbManager eng) delName projectId of
        (Some e, db') \<Rightarrow> (Some e, eng\<lparr>dbManager := db'\<rparr>)
      | (None, db') \<Rightarrow>
          remove_deleted projectId
            (send (eng\<lparr>dbManager := db'\<rparr>) (FileRemoved delName projectId)) rest)"

text \<open>
  The background diff of \<open>start-watching\<close>; \<open>files\<close> is what \<open>fs.readdir(folderPath)\<close>
  returned.
\<close>

definition background_diff ::
  "(string list \<Rightarrow> string list) \<Rightarrow> codec \<Rightarrow> int \<Rightarrow> engine \<Rightarrow> string list \<Rightarrow> string
   \<Rightarrow> string \<Rightarrow> sidecar_manager \<Rightarrow> display_record list \<Rightarrow> db_error option \<times> engine" where
  "background_diff order cd now eng files folder projectId sm cachedImages =
     (let imageFiles = filter is_image_file files;
          existingSet = set (map d_name cachedImages);
          newFiles = filter (\<lambda>f. f \<notin> existingSet) imageFiles;
          eng1 = process_new_files order cd now eng folder projectId sm newFiles;
          dbNames = set_order (map d_name cachedImages);
          deletedFiles = filter (\<lambda>name. name \<notin> set imageFiles) dbNames
      in remove_deleted projectId eng1 deletedFiles)"

definition cached_display :: "string \<Rightarrow> string \<Rightarrow> image_record \<Rightarrow> display_record" where
  "cached_display serverUrl projectId img =
     \<lparr>d_id = image_id img, d_name = file_name img, d_path = file_path img,
      d_thumbnail = tier_url serverUrl ''thumb'' projectId (file_name img),
      d_standardPreview = Some (tier_url serverUrl ''standard'' projectId (file_name img)),
      d_fullPreview = Some (tier_url serverUrl ''full'' projectId (file_name img)),
      d_url = tier_url serverUrl ''preview'' projectId (file_name img),
      d_width = width img, d_height = height img, d_rating = rating img,
      d_tags = [], d_date = None\<rparr>"

text \<open>
  The synchronous part of \<open>start-watching\<close>: it returns the cached records, and the
  arguments the scheduled diff closes over (project id, sidecar manager, cached records).
\<close>

definition start_watching ::
  "int \<Rightarrow> engine \<Rightarrow> string
   \<Rightarrow> display_record list \<times> (string \<times> sidecar_manager \<times> display_record list) \<times> engine" where
  "start_watching now eng folder =
     (let projectId = derive_projectId folder;
          (sm, eng1) =
            (case sidecarManagers eng projectId of
               Some m \<Rightarrow> (m, eng)
             | None \<Rightarrow>
                 (let m = SidecarManager folder
                  in (m, eng\<lparr>disk := initialize now m (disk eng),
                              sidecarManagers := (sidecarManagers eng)(projectId \<mapsto> m),
                              thumbnailServer :=
                                registerSidecarManager (thumbnailServer eng) projectId m\<rparr>)));
          projectName = basename folder;
          db1 = upsertProject (dbManager eng1) now projectId projectName folder;
          cachedImages =
            map (cached_display (getUrl (thumbnailServer eng1)) projectId)
              (getImagesByProject db1 projectId)
      in (cachedImages, (projectId, sm, cachedImages),
          eng1\<lparr>dbManager := db1, watcher := Some folder\<rparr>))"

text \<open>The handler of the watcher's \<open>add\<close> event.\<close>

definition watcher_on_add ::
  "codec \<Rightarrow> int \<Rightarrow> engine \<Rightarrow> string \<Rightarrow> string \<Rightarrow> sidecar_manager \<Rightarrow> string \<Rightarrow> engine" where
  "watcher_on_add cd now eng folder projectId sm filePath =
     (let fileName = basename filePath
      in if is_image_file fileName
         then (case processImageWithSidecar cd now eng folder fileName projectId sm of
                 (imageData, eng1) \<Rightarrow> send eng1 (FileAdded imageData))
         else eng)"

text \<open>Selecting a folder and letting its diff run on the listing \<open>files\<close>.\<close>

definition watch_and_diff ::
  "(string list \<Rightarrow> string list) \<Rightarrow> codec \<Rightarrow> int \<Rightarrow> engine \<Rightarrow> string \<Rightarrow> string list
   \<Rightarrow> db_error option \<times> engine" where
  "watch_and_diff order cd now eng folder files =
     (case start_watching now eng folder of
        (cachedImages, (projectId, sm, cached), eng1) \<Rightarrow>
          background_diff order cd now eng1 files folder projectId sm cached)"

text \<open>The rows the cache holds for a project.\<close>

definition project_rows :: "engine \<Rightarrow> string \<Rightarrow> image_record list" where
  "project_rows eng projectId = filter (\<lambda>r. project_id r = projectId) (images (dbManager eng))"

section \<open>Outcome of a diff\<close>

text \<open>
  The record built in the \<open>catch\<close> branch of \<open>processImageWithSidecar\<close> is the one
  without a \<open>standardPreview\<close> field.
\<close>

definition degraded :: "display_record \<Rightarrow> bool" where
  "degraded d = (d_standardPreview d = None)"

text \<open>
  What decides the outcome of \<open>processImageWithSidecar\<close> for a file, read off the disk
  before the call: the file can be processed when its source is on disk, its thumbnail
  is not older than the source or the encoder produces one, the decoder reads its
  dimensions, and its sidecar JSON, if there is one, parses. \<open>stored_row\<close> is the row the
  call then hands to \<open>upsertImage\<close>.
\<close>

definition processable :: "codec \<Rightarrow> filesystem \<Rightarrow> string \<Rightarrow> sidecar_manager \<Rightarrow> string \<Rightarrow> bool" where
  "processable cd fs folder sm f =
     (case fs (path_join folder f) of
        None \<Rightarrow> False
      | Some src \<Rightarrow>
          ((case fs (getThumbnailPath sm f) of
              Some t \<Rightarrow> mtimeMs src \<le> mtimeMs t | None \<Rightarrow> False)
           \<or> (case run_pipeline cd thumbnail_pipeline (data src) of
                 Rendered out \<Rightarrow> True | Failed part \<Rightarrow> False))
          \<and> read_metadata cd (data src) \<noteq> None
          \<and> (case fs (getMetadataPath sm f) of
                None \<Rightarrow> True | Some j \<Rightarrow> parse_json cd (data j) \<noteq> None))"

definition stored_row ::
  "codec \<Rightarrow> filesystem \<Rightarrow> string \<Rightarrow> string \<Rightarrow> sidecar_manager \<Rightarrow> string \<Rightarrow> image_record" where
  "stored_row cd fs folder projectId sm f =
     (let fullPath = path_join folder f;
          meta = (case fs fullPath of
                    Some src \<Rightarrow> read_metadata cd (data src) | None \<Rightarrow> None);
          json = (case fs (getMetadataPath sm f) of
                    Some j \<Rightarrow> (case parse_json cd (data j) of Some v \<Rightarrow> v | None \<Rightarrow> None)
                  | None \<Rightarrow> None)
      in \<lparr>image_id = fullPath, project_id = projectId, file_path = fullPath, file_name = f,
          file_size = (case fs fullPath of Some src \<Rightarrow> length (data src) | None \<Rightarrow> 0),
          width = (case meta of Some m \<Rightarrow> orZero (m_width m) | None \<Rightarrow> 0),
          height = (case meta of Some m \<Rightarrow> orZero (m_height m) | None \<Rightarrow> 0),
          created_at = (case fs fullPath of Some src \<Rightarrow> birthtimeMs src | None \<Rightarrow> 0),
          modified_at = (case fs fullPath of Some src \<Rightarrow> mtimeMs src | None \<Rightarrow> 0),
          rating = orZeroInt (case json of Some j \<Rightarrow> j_rating j | None \<Rightarrow> None)\<rparr>)"

text \<open>The thumbnail step alone.\<close>

definition thumbnail_ok :: "codec \<Rightarrow> filesystem \<Rightarrow> string \<Rightarrow> string \<Rightarrow> bool" where
  "thumbnail_ok cd fs imagePath thumbPath =
     (case fs imagePath of
        None \<Rightarrow> False
      | Some src \<Rightarrow>
          (case fs thumbPath of
             Some t \<Rightarrow> mtimeMs src \<le> mtimeMs t | None \<Rightarrow> False)
          \<or> (case run_pipeline cd thumbnail_pipeline (data src) of
                Rendered out \<Rightarrow> True | Failed part \<Rightarrow> False))"

text \<open>
  For a set of file names: the paths of different files are different, and no file's
  thumbnail path is the source path or the sidecar JSON path of a file of the set.
\<close>

definition separated :: "string \<Rightarrow> sidecar_manager \<Rightarrow> string set \<Rightarrow> bool" where
  "separated folder sm F =
     (\<forall>f \<in> F. \<forall>g \<in> F.
        (path_join folder f = path_join folder g \<longrightarrow> f = g) \<and>
        (getThumbnailPath sm g = getThumbnailPath sm f \<longrightarrow> g = f) \<and>
        getThumbnailPath sm g \<noteq> path_join folder f \<and>
        getThumbnailPath sm g \<noteq> getMetadataPath sm f)"

text \<open>
  The outcome of a diff over the files \<open>fs\<close>, with results \<open>ds\<close> and appended rows
  \<open>rows\<close>: one result per file, in order, degraded exactly for the files that cannot be
  processed, and as rows, in any order, the rows of the files that can.
\<close>

definition diff_outcome ::
  "codec \<Rightarrow> filesystem \<Rightarrow> string \<Rightarrow> string \<Rightarrow> sidecar_manager \<Rightarrow> string list
   \<Rightarrow> display_record list \<Rightarrow> image_record list \<Rightarrow> bool" where
  "diff_outcome cd fs0 folder projectId sm fs ds rows =
     (map d_name ds = fs \<and>
      map degraded ds = map (\<lambda>f. \<not> processable cd fs0 folder sm f) fs \<and>
      mset rows = mset (map (stored_row cd fs0 folder projectId sm)
                            (filter (processable cd fs0 folder sm) fs)))"

text \<open>Two disks that hold the same at the paths read for the files of a set.\<close>

definition agrees :: "string \<Rightarrow> sidecar_manager \<Rightarrow> string set \<Rightarrow> filesystem \<Rightarrow> filesystem \<Rightarrow> bool" where
  "agrees folder sm F fs fs0 =
     (\<forall>f \<in> F. fs (path_join folder f) = fs0 (path_join folder f) \<and>
              fs (getThumbnailPath sm f) = fs0 (getThumbnailPath sm f) \<and>
              fs (getMetadataPath sm f) = fs0 (getMetadataPath sm f))"

section \<open>Repeated calls and concrete inputs\<close>

text \<open>\<open>upsertProject\<close> called again and again on one id, each call with its own time, name and path.\<close>

definition upsertProject_repeat ::
  "database \<Rightarrow> string \<Rightarrow> (int \<times> string \<times> string) list \<Rightarrow> database" where
  "upsertProject_repeat db i calls =
     foldl (\<lambda>d c. case c of (now, name, path) \<Rightarrow> upsertProject d now i name path) db calls"

text \<open>
  \<open>upsertImage\<close> applied to each record of a list in order, as a loop over the records
  does: a call that raises ends the loop, and what earlier calls wrote stays.
\<close>

fun upsertImage_each :: "database \<Rightarrow> image_record list \<Rightarrow> db_error option \<times> database" where
  "upsertImage_each db [] = (None, db)"
| "upsertImage_each db (img # imgs) =
     (case upsertImage db img of
        (Some e, db') \<Rightarrow> (Some e, db')
      | (None, db') \<Rightarrow> upsertImage_each db' imgs)"

text \<open>
  A stored row for \<open>photo.jpg\<close>, rated 5 at \<open>modified_at = 2000\<close>; a stale rescan of the same
  file (\<open>modified_at = 1000\<close>, rating 0) and a newer one (\<open>modified_at = 3000\<close>, rating 3); a
  record for a file \<open>fresh.jpg\<close> that the table does not hold.
\<close>

definition photo_row :: image_record where
  "photo_row =
     \<lparr>image_id = ''/pics/photo.jpg'', project_id = ''_pics'', file_path = ''/pics/photo.jpg'',
      file_name = ''photo.jpg'', file_size = 10, width = 800, height = 600,
      created_at = 500, modified_at = 2000, rating = 5\<rparr>"

definition photo_stale :: image_record where
  "photo_stale = photo_row\<lparr>file_size := 11, modified_at := 1000, rating := 0\<rparr>"

definition photo_newer :: image_record where
  "photo_newer = photo_row\<lparr>file_size := 12, modified_at := 3000, rating := 3\<rparr>"

definition fresh_row :: image_record where
  "fresh_row =
     \<lparr>image_id = ''/pics/fresh.jpg'', project_id = ''_pics'', file_path = ''/pics/fresh.jpg'',
      file_name = ''fresh.jpg'', file_size = 20, width = 640, height = 480,
      created_at = 2500, modified_at = 2500, rating = 0\<rparr>"

definition photo_db :: database where
  "photo_db =
     \<lparr>projects = [\<lparr>p_id = ''_pics'', p_name = ''pics'', p_path = ''/pics'',
                    p_created_at = 100, p_last_opened = 200, p_cache_size = 42\<rparr>],
      images = [photo_row], operationCount = 0\<rparr>"

text \<open>
  A codec for the examples: the bytes \<open>small\<close> decode as 800 x 600, \<open>large\<close> and \<open>broken\<close>
  as 3000 x 2000, anything else is rejected; encoding \<open>broken\<close> fails after the prefix
  \<open>par\<close> was written, any other input encodes to \<open>jpg:\<close> followed by the input.
\<close>

definition demo_codec :: codec where
  "demo_codec =
     \<lparr>read_metadata = (\<lambda>b. if b = ''small'' then Some \<lparr>m_width = Some 800, m_height = Some 600\<rparr>
                            else if b = ''large'' \<or> b = ''broken''
                            then Some \<lparr>m_width = Some 3000, m_height = Some 2000\<rparr>
                            else None),
      run_pipeline = (\<lambda>pl b. if b = ''broken'' then Failed (Some ''par'') else Rendered (''jpg:'' @ b)),
      parse_json = (\<lambda>b. if b = ''null'' then Some None else None)\<rparr>"

definition pics :: sidecar_manager where
  "pics = SidecarManager ''/pics''"

text \<open>
  A disk for the examples, folder \<open>/pics\<close>: \<open>a.jpg\<close> (small) with a standard preview and a
  full-size file left from a larger version, \<open>b.jpg\<close> (large) with a fresh thumbnail,
  \<open>c.jpg\<close> (fails in the encoder) with a stale thumbnail, \<open>d.jpg\<close> (small) with a
  standard preview only.
\<close>

definition demo_disk :: filesystem where
  "demo_disk =
     [''/pics/a.jpg'' \<mapsto> \<lparr>data = ''small'', mtimeMs = 1000, birthtimeMs = 900\<rparr>,
      ''/pics/b.jpg'' \<mapsto> \<lparr>data = ''large'', mtimeMs = 1000, birthtimeMs = 900\<rparr>,
      ''/pics/c.jpg'' \<mapsto> \<lparr>data = ''broken'', mtimeMs = 1000, birthtimeMs = 900\<rparr>,
      ''/pics/d.jpg'' \<mapsto> \<lparr>data = ''small'', mtimeMs = 1000, birthtimeMs = 900\<rparr>,
      ''/pics/.capture-open/previews/d.jpg.standard.jpg'' \<mapsto>
         \<lparr>data = ''jpg:small'', mtimeMs = 2000, birthtimeMs = 2000\<rparr>,
      ''/pics/.capture-open/thumbnails/b.jpg.thumb.webp'' \<mapsto>
         \<lparr>data = ''jpg:large'', mtimeMs = 2000, birthtimeMs = 2000\<rparr>,
      ''/pics/.capture-open/thumbnails/c.jpg.thumb.webp'' \<mapsto>
         \<lparr>data = ''old'', mtimeMs = 500, birthtimeMs = 500\<rparr>,
      ''/pics/.capture-open/previews/a.jpg.standard.jpg'' \<mapsto>
         \<lparr>data = ''jpg:small'', mtimeMs = 2000, birthtimeMs = 2000\<rparr>,
      ''/pics/.capture-open/previews/a.jpg.full.jpg'' \<mapsto>
         \<lparr>data = ''old-full'', mtimeMs = 2000, birthtimeMs = 2000\<rparr>]"

definition demo_server :: thumbnail_server where
  "demo_server = \<lparr>port = 45678, server_managers = [''_pics'' \<mapsto> pics]\<rparr>"

text \<open>
  What one generation call may do to the disk, read off its result: nothing, or one
  write of the encoder's output (whole, or the prefix written before it failed) at the
  final derivative path.
\<close>

definition direct_write ::
  "codec \<Rightarrow> int \<Rightarrow> filesystem \<Rightarrow> string \<Rightarrow> string \<Rightarrow> (io_error + string option) \<times> filesystem \<Rightarrow> bool" where
  "direct_write cd now fs imagePath final res =
     (snd res = fs \<or>
      (\<exists>src pl out. fs imagePath = Some src \<and> snd res = write_file fs final out now \<and>
         (run_pipeline cd pl (data src) = Rendered out \<and> fst res = Inr (Some final) \<or>
          run_pipeline cd pl (data src) = Failed (Some out) \<and> fst res = Inl EncodeError)))"

text \<open>
  Two engines for the examples, each with an empty database, a window and no registered
  manager: one on the disk of \<open>/pics\<close> above, one on a folder \<open>/shots\<close> whose only file
  \<open>c.jpg\<close> fails in the encoder.
\<close>

definition demo_engine :: engine where
  "demo_engine =
     \<lparr>dbManager = \<lparr>projects = [], images = [], operationCount = 0\<rparr>,
      disk = demo_disk,
      sidecarManagers = Map.empty,
      thumbnailServer = \<lparr>port = 45678, server_managers = Map.empty\<rparr>,
      watcher = None, mainWindow = True, sent = [], pending = []\<rparr>"

definition shots_engine :: engine where
  "shots_engine =
     demo_engine\<lparr>disk := [''/shots/c.jpg'' \<mapsto>
                               \<lparr>data = ''broken'', mtimeMs = 1000, birthtimeMs = 900\<rparr>]\<rparr>"

text \<open>
  An engine on a folder \<open>/album\<close> with two image files that both process, and a text
  file.
\<close>

definition album_engine :: engine where
  "album_engine =
     demo_engine\<lparr>disk :=
       [''/album/a.jpg'' \<mapsto> \<lparr>data = ''small'', mtimeMs = 1000, birthtimeMs = 900\<rparr>,
        ''/album/b.jpg'' \<mapsto> \<lparr>data = ''large'', mtimeMs = 1200, birthtimeMs = 1100\<rparr>,
        ''/album/notes.txt'' \<mapsto> \<lparr>data = ''text'', mtimeMs = 1300, birthtimeMs = 1300\<rparr>]\<rparr>"

section \<open>Properties of the Metadata Cache\<close>

lemma images_checkOptimization: "images (checkOptimization db) = images db"
  by (simp add: checkOptimization_def Let_def)

lemma projects_checkOptimization: "projects (checkOptimization db) = projects db"
  by (simp add: checkOptimization_def Let_def)

lemma upsert_image_row_stale:
  "find (\<lambda>r. image_id r = image_id img) rs = Some s \<Longrightarrow> modified_at img \<le> modified_at s
   \<Longrightarrow> upsert_image_row rs img = Inr rs"
  by (induction rs) (auto split: if_splits)

lemma upsert_image_row_newer:
  "find (\<lambda>r. image_id r = image_id img) rs = Some s \<Longrightarrow> modified_at img > modified_at s
   \<Longrightarrow> upsert_image_row rs img = Inl (SqliteError ''no such column: T.tags'')"
  by (induction rs) (auto simp: images_fts_update_def split: if_splits)

lemma upsert_image_row_absent:
  "find (\<lambda>r. image_id r = image_id img) rs = None
   \<Longrightarrow> upsert_image_row rs img = Inr (rs @ [img])"
  by (induction rs) (auto simp: images_fts_insert_def split: if_splits)

text \<open>
  What the code does with a strictly newer record for a stored id: the UPDATE fires
  \<open>images_fts_update\<close>, the call raises and the database is as before.
\<close>

lemma upsertImage_newer_raises:
  "get_image db (image_id img) = Some s \<Longrightarrow> modified_at img > modified_at s
   \<Longrightarrow> upsertImage db img = (Some (SqliteError ''no such column: T.tags''), db)"
  by (simp add: get_image_def upsertImage_def upsert_image_row_newer)

lemma upsertImage_absent_inserts:
  "get_image db (image_id img) = None
   \<Longrightarrow> upsertImage db img = (None, checkOptimization (db\<lparr>images := images db @ [img]\<rparr>))"
  by (simp add: get_image_def upsertImage_def upsert_image_row_absent)

text \<open>
  Claim C1. When a row with the record's id is stored and the record's \<open>modified_at\<close> is
  older than or equal to the stored one, \<open>upsertImage\<close> returns without an error and leaves
  the whole \<open>images\<close> table and the \<open>projects\<close> table as they were, so the stored row keeps
  its rating and every other field: no field of a record that is not strictly newer is
  applied.
\<close>

theorem upsertImage_stale_unchanged:
  assumes "get_image db (image_id img) = Some s"
    and "modified_at img \<le> modified_at s"
  shows "fst (upsertImage db img) = None \<and>
         images (snd (upsertImage db img)) = images db \<and>
         projects (snd (upsertImage db img)) = projects db \<and>
         get_image (snd (upsertImage db img)) (image_id img) = Some s"
  using assms
  by (simp add: get_image_def upsertImage_def images_checkOptimization
      projects_checkOptimization upsert_image_row_stale)

theorem upsertImage_stale_unchanged_witness:
  "get_image photo_db (image_id photo_stale) = Some photo_row \<and>
   modified_at photo_stale \<le> modified_at photo_row \<and>
   rating photo_stale = 0 \<and>
   fst (upsertImage photo_db photo_stale) = None \<and>
   images (snd (upsertImage photo_db photo_stale)) = [photo_row] \<and>
   map_option rating (get_image (snd (upsertImage photo_db photo_stale)) ''/pics/photo.jpg'')
     = Some 5"
proof -
  have h: "get_image photo_db (image_id photo_stale) = Some photo_row"
    by (simp add: get_image_def photo_db_def photo_stale_def photo_row_def)
  have le: "modified_at photo_stale \<le> modified_at photo_row"
    by (simp add: photo_stale_def photo_row_def)
  have id1: "image_id photo_stale = ''/pics/photo.jpg''"
    by (simp add: photo_stale_def photo_row_def)
  have r0: "rating photo_stale = 0" by (simp add: photo_stale_def)
  have r5: "rating photo_row = 5" by (simp add: photo_row_def)
  have i0: "images photo_db = [photo_row]" by (simp add: photo_db_def)
  from upsertImage_stale_unchanged [OF h le]
  have a: "fst (upsertImage photo_db photo_stale) = None"
    and b: "images (snd (upsertImage photo_db photo_stale)) = [photo_row]"
    and c: "get_image (snd (upsertImage photo_db photo_stale)) ''/pics/photo.jpg''
            = Some photo_row"
    by (simp_all add: id1 i0)
  from h le r0 a b c r5 show ?thesis by simp
qed

lemma batch_upsert_row_eq: "batch_upsert_row rs img = upsert_image_row rs img"
  by (induction rs) (simp_all add: images_fts_update_def)

text \<open>
  Where the batch and the loop agree: a batch whose transaction commits leaves the
  \<open>images\<close> table that \<open>upsertImage\<close> applied to each record in order leaves, and the
  loop raises nowhere either.
\<close>

lemma batch_commits_as_each:
  "batch_transaction (images db) imgs = Inr rows \<Longrightarrow>
   fst (upsertImage_each db imgs) = None \<and> images (snd (upsertImage_each db imgs)) = rows"
proof (induction imgs arbitrary: db)
  case Nil
  then show ?case by simp
next
  case (Cons img imgs)
  from Cons.prems obtain rows1 where
    r1: "upsert_image_row (images db) img = Inr rows1"
    and r2: "batch_transaction rows1 imgs = Inr rows"
    by (auto simp: batch_upsert_row_eq split: sum.splits)
  let ?db1 = "checkOptimization (db\<lparr>images := rows1\<rparr>)"
  have u: "upsertImage db img = (None, ?db1)" by (simp add: upsertImage_def r1)
  have "batch_transaction (images ?db1) imgs = Inr rows"
    by (simp add: images_checkOptimization r2)
  from Cons.IH [OF this] show ?case by (simp add: u)
qed

text \<open>
  Claim C2. \<open>upsertImagesBatch\<close> is claimed to leave the database as \<open>upsertImage\<close> applied
  to each record in order does. On a table holding \<open>photo.jpg\<close> (\<open>modified_at = 2000\<close>) and
  the list of a record for the new file \<open>fresh.jpg\<close> followed by the newer rescan of
  \<open>photo.jpg\<close>, both raise at the second record; the loop has inserted \<open>fresh.jpg\<close> by
  then and the table holds two rows, the batch is rolled back and the table holds one.
\<close>

theorem upsertImagesBatch_rolls_back:
  "images photo_db = [photo_row] \<and>
   upsertImagesBatch photo_db [fresh_row, photo_newer] =
     (Some (SqliteError ''no such column: T.tags''), photo_db) \<and>
   fst (upsertImage_each photo_db [fresh_row, photo_newer]) =
     Some (SqliteError ''no such column: T.tags'') \<and>
   images (snd (upsertImage_each photo_db [fresh_row, photo_newer])) = [photo_row, fresh_row] \<and>
   images (snd (upsertImagesBatch photo_db [fresh_row, photo_newer]))
     \<noteq> images (snd (upsertImage_each photo_db [fresh_row, photo_newer]))"
  by (simp add: upsertImagesBatch_def upsertImage_def images_checkOptimization
      images_fts_insert_def images_fts_update_def
      photo_db_def photo_newer_def photo_row_def fresh_row_def)

lemma find_kept_none:
  "find (\<lambda>r. p_id r = i) (filter (\<lambda>r. p_id r \<noteq> i \<and> p_path r \<noteq> path) rows) = None"
  by (induction rows) auto

lemma filter_kept_nil:
  "filter (\<lambda>r. p_id r = i) (filter (\<lambda>r. p_id r \<noteq> i \<and> p_path r \<noteq> path) rows) = []"
  by (induction rows) auto

lemma find_append_none:
  "find P xs = None \<Longrightarrow> find P (xs @ ys) = find P ys"
  by (induction xs) (auto split: if_splits)

lemma get_project_upsertProject:
  "get_project (upsertProject db now i name path) i =
     Some \<lparr>p_id = i, p_name = name, p_path = path,
           p_created_at = (case get_project db i of Some r \<Rightarrow> p_created_at r | None \<Rightarrow> now),
           p_last_opened = now, p_cache_size = 0\<rparr>"
  by (cases "find (\<lambda>r. p_id r = i) (projects db)")
    (simp_all add: get_project_def upsertProject_def select_created_at_def Let_def
      find_append_none [OF find_kept_none])

lemma one_row_upsertProject:
  "length (filter (\<lambda>r. p_id r = i) (projects (upsertProject db now i name path))) = 1"
  by (auto simp: upsertProject_def Let_def filter_empty_conv)

lemma upsertProject_repeat_snoc:
  "upsertProject_repeat db i (calls @ [(now, name, path)]) =
     upsertProject (upsertProject_repeat db i calls) now i name path"
  by (simp add: upsertProject_repeat_def)

lemma repeat_keeps_created_at:
  "get_project db i = Some r \<Longrightarrow>
   \<exists>r'. get_project (upsertProject_repeat db i calls) i = Some r' \<and>
        p_created_at r' = p_created_at r \<and>
        p_last_opened r' = last (p_last_opened r # map fst calls)"
proof (induction calls rule: rev_induct)
  case Nil
  then show ?case by (simp add: upsertProject_repeat_def)
next
  case (snoc c calls)
  obtain now name path where c: "c = (now, name, path)" by (cases c) auto
  from snoc obtain r' where r': "get_project (upsertProject_repeat db i calls) i = Some r'"
    "p_created_at r' = p_created_at r" by blast
  show ?case
    by (simp add: c upsertProject_repeat_snoc get_project_upsertProject r')
qed

text \<open>
  Claim C9. After a first call of \<open>upsertProject\<close> for an id at time \<open>t0\<close>, any further
  calls for the same id (with whatever names, paths and times) leave exactly one row
  for that id, whose \<open>created_at\<close> is the one the first call left and whose \<open>last_opened\<close> is
  the time of the latest call.
\<close>

theorem upsertProject_keeps_createdAt:
  "\<exists>r1 rN.
     get_project (upsertProject db t0 i n0 p0) i = Some r1 \<and>
     get_project (upsertProject_repeat (upsertProject db t0 i n0 p0) i calls) i = Some rN \<and>
     p_id rN = i \<and>
     p_created_at rN = p_created_at r1 \<and>
     p_last_opened rN = last (t0 # map fst calls) \<and>
     length (filter (\<lambda>r. p_id r = i)
       (projects (upsertProject_repeat (upsertProject db t0 i n0 p0) i calls))) = 1"
proof -
  let ?db1 = "upsertProject db t0 i n0 p0"
  obtain r1 where r1: "get_project ?db1 i = Some r1" "p_last_opened r1 = t0"
    by (simp add: get_project_upsertProject)
  from repeat_keeps_created_at [OF r1(1), of calls]
  obtain rN where rN: "get_project (upsertProject_repeat ?db1 i calls) i = Some rN"
    "p_created_at rN = p_created_at r1" "p_last_opened rN = last (t0 # map fst calls)"
    by (auto simp: r1(2))
  have idN: "p_id rN = i"
    using rN(1) by (auto simp: get_project_def dest: find_Some_iff [THEN iffD1])
  have one: "length (filter (\<lambda>r. p_id r = i) (projects (upsertProject_repeat ?db1 i calls))) = 1"
  proof (cases calls rule: rev_cases)
    case Nil
    then show ?thesis by (simp add: upsertProject_repeat_def one_row_upsertProject)
  next
    case (snoc cs c)
    obtain now name path where c: "c = (now, name, path)" by (cases c) auto
    show ?thesis by (simp add: snoc c upsertProject_repeat_snoc one_row_upsertProject)
  qed
  from r1 rN idN one show ?thesis by blast
qed

text \<open>
  Claim C10. For a project already in the table, \<open>upsertProject\<close> replaces the whole row:
  afterwards the table holds exactly one row for the id, the old row is gone, and the
  new row has the given name and path, \<open>last_opened\<close> at the time of the call,
  \<open>cache_size\<close> at its default 0 whatever it was before, and only \<open>created_at\<close> taken from
  the old row.
\<close>

theorem upsertProject_resets_cache_size:
  assumes "get_project db i = Some old"
  shows "filter (\<lambda>r. p_id r = i) (projects (upsertProject db now i name path)) =
           [\<lparr>p_id = i, p_name = name, p_path = path,
             p_created_at = p_created_at old,
             p_last_opened = now, p_cache_size = 0\<rparr>] \<and>
         get_project (upsertProject db now i name path) i =
           Some \<lparr>p_id = i, p_name = name, p_path = path,
                 p_created_at = p_created_at old,
                 p_last_opened = now, p_cache_size = 0\<rparr> \<and>
         (old \<in> set (projects (upsertProject db now i name path)) \<longleftrightarrow>
            old = \<lparr>p_id = i, p_name = name, p_path = path,
                   p_created_at = p_created_at old,
                   p_last_opened = now, p_cache_size = 0\<rparr>)"
proof -
  let ?new = "\<lparr>p_id = i, p_name = name, p_path = path, p_created_at = p_created_at old,
               p_last_opened = now, p_cache_size = 0\<rparr>"
  from assms have sel: "select_created_at (projects db) i = Some (p_created_at old)"
    by (simp add: get_project_def select_created_at_def)
  from assms have oid: "p_id old = i"
    by (auto simp: get_project_def dest: find_Some_iff [THEN iffD1])
  have tbl: "projects (upsertProject db now i name path) =
      filter (\<lambda>r. p_id r \<noteq> i \<and> p_path r \<noteq> path) (projects db) @ [?new]"
    by (simp add: upsertProject_def Let_def sel)
  have one: "filter (\<lambda>r. p_id r = i) (projects (upsertProject db now i name path)) = [?new]"
    by (auto simp: tbl filter_empty_conv)
  have gone: "old \<in> set (projects (upsertProject db now i name path)) \<longleftrightarrow> old = ?new"
    using oid by (auto simp: tbl)
  from one gone assms show ?thesis
    by (simp add: get_project_upsertProject)
qed

theorem upsertProject_resets_cache_size_witness:
  "get_project photo_db ''_pics'' =
     Some \<lparr>p_id = ''_pics'', p_name = ''pics'', p_path = ''/pics'',
           p_created_at = 100, p_last_opened = 200, p_cache_size = 42\<rparr> \<and>
   projects (upsertProject photo_db 300 ''_pics'' ''pics'' ''/pics'') =
     [\<lparr>p_id = ''_pics'', p_name = ''pics'', p_path = ''/pics'',
       p_created_at = 100, p_last_opened = 300, p_cache_size = 0\<rparr>] \<and>
   filter (\<lambda>r. p_id r = ''_pics'')
       (projects (upsertProject photo_db 300 ''_pics'' ''pics'' ''/pics'')) =
     [\<lparr>p_id = ''_pics'', p_name = ''pics'', p_path = ''/pics'',
       p_created_at = 100, p_last_opened = 300, p_cache_size = 0\<rparr>] \<and>
   \<lparr>p_id = ''_pics'', p_name = ''pics'', p_path = ''/pics'',
     p_created_at = 100, p_last_opened = 200, p_cache_size = 42\<rparr>
     \<notin> set (projects (upsertProject photo_db 300 ''_pics'' ''pics'' ''/pics''))"
proof -
  let ?old = "\<lparr>p_id = ''_pics'', p_name = ''pics'', p_path = ''/pics'',
               p_created_at = 100, p_last_opened = 200, p_cache_size = 42\<rparr>"
  have h: "get_project photo_db ''_pics'' = Some ?old"
    by (simp add: get_project_def photo_db_def)
  have tbl: "projects (upsertProject photo_db 300 ''_pics'' ''pics'' ''/pics'') =
     [\<lparr>p_id = ''_pics'', p_name = ''pics'', p_path = ''/pics'',
       p_created_at = 100, p_last_opened = 300, p_cache_size = 0\<rparr>]"
    by (simp add: upsertProject_def Let_def select_created_at_def photo_db_def)
  from upsertProject_resets_cache_size [OF h, of 300 "''pics''" "''/pics''"] h tbl
  show ?thesis by simp
qed

section \<open>Properties of paths\<close>

lemma split_sep_nonempty: "split_sep p \<noteq> []"
  by (induction p) (auto split: list.splits)

lemma split_sep_plain: "CHR ''/'' \<notin> set f \<Longrightarrow> split_sep f = [f]"
  by (induction f) auto

lemma split_sep_append:
  "CHR ''/'' \<notin> set f \<Longrightarrow> split_sep (d @ CHR ''/'' # f) = split_sep d @ [f]"
proof (induction d)
  case Nil
  then show ?case by (simp add: split_sep_plain)
next
  case (Cons c d)
  then show ?case
    using split_sep_nonempty [of d]
    by (cases "split_sep d") auto
qed

lemma last_not_in: "f \<noteq> [] \<Longrightarrow> c \<notin> set f \<Longrightarrow> last f \<noteq> c"
  by (metis last_in_set)

lemma join_sep_snoc: "segs \<noteq> [] \<Longrightarrow> join_sep (segs @ [f]) = join_sep segs @ CHR ''/'' # f"
  by (induction segs rule: join_sep.induct) auto

lemma normalize_step_plain: "plain_name f \<Longrightarrow> normalize_step allow kept f = kept @ [f]"
  by (simp add: normalize_step_def plain_name_def)

lemma path_normalize_append:
  assumes "normal_folder d" and "plain_name f"
  shows "path_normalize (d @ CHR ''/'' # f) = d @ CHR ''/'' # f"
proof -
  let ?kept = "foldl (normalize_step False) [] (split_sep d)"
  from assms(1) have d: "d \<noteq> []" "hd d = CHR ''/''" "last d \<noteq> CHR ''/''" "path_normalize d = d"
    by (simp_all add: normal_folder_def)
  from assms(2) have f: "f \<noteq> []" "CHR ''/'' \<notin> set f" by (simp_all add: plain_name_def)
  have q: "join_sep ?kept \<noteq> []" and dq: "d = CHR ''/'' # join_sep ?kept"
    using d by (auto simp: path_normalize_def Let_def split: if_splits)
  then have kept: "?kept \<noteq> []" by auto
  have hd': "hd (d @ CHR ''/'' # f) = CHR ''/''" using d by simp
  have "last f \<noteq> CHR ''/''" using f by (rule last_not_in)
  then have last': "last (d @ CHR ''/'' # f) \<noteq> CHR ''/''"
    using f by simp
  have fold: "foldl (normalize_step False) [] (split_sep (d @ CHR ''/'' # f)) = ?kept @ [f]"
    using f assms(2) by (simp add: split_sep_append normalize_step_plain)
  have "path_normalize (d @ CHR ''/'' # f) = CHR ''/'' # join_sep (?kept @ [f])"
    using hd' last' f kept
    by (simp add: path_normalize_def Let_def fold join_sep_snoc del: foldl_append)
  also have "\<dots> = d @ CHR ''/'' # f"
    using kept dq by (simp add: join_sep_snoc)
  finally show ?thesis .
qed

lemma path_join_normal:
  assumes "normal_folder d" and "plain_name f"
  shows "path_join d f = d @ CHR ''/'' # f"
  using assms path_normalize_append [OF assms]
  by (simp add: path_join_def normal_folder_def plain_name_def)

lemma normal_folder_join:
  assumes "normal_folder d" and "plain_name f"
  shows "normal_folder (d @ CHR ''/'' # f)"
  using assms path_normalize_append [OF assms]
  by (auto simp: normal_folder_def plain_name_def last_append last_not_in)

lemma plain_name_ext:
  "plain_name f \<Longrightarrow> CHR ''/'' \<notin> set ext \<Longrightarrow> length ext > 2 \<Longrightarrow> plain_name (f @ ext)"
  by (auto simp: plain_name_def append_eq_Cons_conv)

lemma sidecar_paths_normal:
  assumes "normal_folder d" and "plain_name f"
  shows "getThumbnailPath (SidecarManager d) f =
           d @ ''/.capture-open/thumbnails/'' @ f @ ''.thumb.webp''"
    and "getStandardPreviewPath (SidecarManager d) f =
           d @ ''/.capture-open/previews/'' @ f @ ''.standard.jpg''"
    and "getFullSizePreviewPath (SidecarManager d) f =
           d @ ''/.capture-open/previews/'' @ f @ ''.full.jpg''"
    and "getMetadataPath (SidecarManager d) f =
           d @ ''/.capture-open/metadata/'' @ f @ ''.json''"
    and "sidecarRoot (SidecarManager d) = d @ ''/.capture-open''"
proof -
  have c: "plain_name ''.capture-open''" and t: "plain_name ''thumbnails''"
    and p: "plain_name ''previews''" and m: "plain_name ''metadata''"
    by (simp_all add: plain_name_def)
  note r = normal_folder_join [OF assms(1) c]
  have root: "path_join d ''.capture-open'' = d @ ''/.capture-open''"
    using path_join_normal [OF assms(1) c] by simp
  have nr: "normal_folder (d @ ''/.capture-open'')" using r by simp
  have th: "path_join (d @ ''/.capture-open'') ''thumbnails'' = d @ ''/.capture-open/thumbnails''"
    using path_join_normal [OF nr t] by simp
  have pr: "path_join (d @ ''/.capture-open'') ''previews'' = d @ ''/.capture-open/previews''"
    using path_join_normal [OF nr p] by simp
  have me: "path_join (d @ ''/.capture-open'') ''metadata'' = d @ ''/.capture-open/metadata''"
    using path_join_normal [OF nr m] by simp
  have nth: "normal_folder (d @ ''/.capture-open/thumbnails'')"
    using normal_folder_join [OF nr t] by simp
  have npr: "normal_folder (d @ ''/.capture-open/previews'')"
    using normal_folder_join [OF nr p] by simp
  have nme: "normal_folder (d @ ''/.capture-open/metadata'')"
    using normal_folder_join [OF nr m] by simp
  show "getThumbnailPath (SidecarManager d) f =
           d @ ''/.capture-open/thumbnails/'' @ f @ ''.thumb.webp''"
    using path_join_normal [OF nth plain_name_ext [OF assms(2), of "''.thumb.webp''"]]
    by (simp add: getThumbnailPath_def SidecarManager_def Let_def root th)
  show "getStandardPreviewPath (SidecarManager d) f =
           d @ ''/.capture-open/previews/'' @ f @ ''.standard.jpg''"
    using path_join_normal [OF npr plain_name_ext [OF assms(2), of "''.standard.jpg''"]]
    by (simp add: getStandardPreviewPath_def SidecarManager_def Let_def root pr)
  show "getFullSizePreviewPath (SidecarManager d) f =
           d @ ''/.capture-open/previews/'' @ f @ ''.full.jpg''"
    using path_join_normal [OF npr plain_name_ext [OF assms(2), of "''.full.jpg''"]]
    by (simp add: getFullSizePreviewPath_def SidecarManager_def Let_def root pr)
  show "getMetadataPath (SidecarManager d) f =
           d @ ''/.capture-open/metadata/'' @ f @ ''.json''"
    using path_join_normal [OF nme plain_name_ext [OF assms(2), of "''.json''"]]
    by (simp add: getMetadataPath_def SidecarManager_def Let_def root me)
  show "sidecarRoot (SidecarManager d) = d @ ''/.capture-open''"
    by (simp add: SidecarManager_def Let_def root)
qed

lemma normal_pics: "normal_folder ''/pics''"
  by code_simp

lemma normal_shots: "normal_folder ''/shots''"
  by code_simp

lemmas pics_paths = sidecar_paths_normal [OF normal_pics, folded pics_def]

lemmas shots_paths = sidecar_paths_normal [OF normal_shots]

lemmas path_defs = pics_paths shots_paths plain_name_def
  path_join_normal [OF normal_pics] path_join_normal [OF normal_shots] Let_def

section \<open>Properties of the Derivative Store\<close>

lemma sharp_toFile_frame:
  "p \<noteq> dst \<Longrightarrow> snd (sharp_toFile cd now fs src pl dst) p = fs p"
  by (auto simp: sharp_toFile_def write_file_def split: option.splits render.splits)

lemma sharp_toFile_cases:
  "sharp_toFile cd now fs src pl dst = (r, fs') \<Longrightarrow>
   fs' = fs \<and> r \<noteq> None \<or>
   (\<exists>s out. fs src = Some s \<and> fs' = write_file fs dst out now \<and>
      (run_pipeline cd pl (data s) = Rendered out \<and> r = None \<or>
       run_pipeline cd pl (data s) = Failed (Some out) \<and> r = Some EncodeError))"
  by (auto simp: sharp_toFile_def split: option.splits render.splits)

lemma derivative_fresh_True:
  "fs imagePath = Some src \<Longrightarrow> fs dp = Some d \<Longrightarrow> mtimeMs d \<ge> mtimeMs src
   \<Longrightarrow> derivative_fresh fs imagePath dp = Inr True"
  by (simp add: derivative_fresh_def pathExists_def fs_stat_def)

lemma derivative_fresh_total:
  "fs imagePath = Some src \<Longrightarrow> \<exists>b. derivative_fresh fs imagePath dp = Inr b"
  by (auto simp: derivative_fresh_def pathExists_def fs_stat_def split: option.splits)

lemma demo_a: "demo_disk ''/pics/a.jpg'' = Some \<lparr>data = ''small'', mtimeMs = 1000, birthtimeMs = 900\<rparr>"
  by (simp add: demo_disk_def)

lemma demo_a_full: "demo_disk (derivative_path FullPreview pics ''a.jpg'') =
    Some \<lparr>data = ''old-full'', mtimeMs = 2000, birthtimeMs = 2000\<rparr>"
  by (simp add: demo_disk_def derivative_path_def path_defs)

lemma demo_b: "demo_disk ''/pics/b.jpg'' = Some \<lparr>data = ''large'', mtimeMs = 1000, birthtimeMs = 900\<rparr>"
  by (simp add: demo_disk_def)

lemma demo_c: "demo_disk ''/pics/c.jpg'' = Some \<lparr>data = ''broken'', mtimeMs = 1000, birthtimeMs = 900\<rparr>"
  by (simp add: demo_disk_def)

lemma demo_b_thumb: "demo_disk (derivative_path Thumbnail pics ''b.jpg'') =
    Some \<lparr>data = ''jpg:large'', mtimeMs = 2000, birthtimeMs = 2000\<rparr>"
  by (simp add: demo_disk_def derivative_path_def path_defs)

lemma demo_c_thumb: "demo_disk (getThumbnailPath pics ''c.jpg'') =
    Some \<lparr>data = ''old'', mtimeMs = 500, birthtimeMs = 500\<rparr>"
  by (simp add: demo_disk_def path_defs)

lemma demo_a_std: "demo_disk (getStandardPreviewPath pics ''a.jpg'') =
    Some \<lparr>data = ''jpg:small'', mtimeMs = 2000, birthtimeMs = 2000\<rparr>"
  by (simp add: demo_disk_def path_defs)

lemma demo_b_full: "demo_disk (getFullSizePreviewPath pics ''b.jpg'') = None"
  by (simp add: demo_disk_def path_defs)

text \<open>
  Claim C5. For a source that decodes, \<open>generateFullSizePreview\<close> returns \<open>null\<close> and leaves
  the disk as it was when the longer edge is at most 1600. When the longer edge exceeds
  1600: a derivative at the full-size path that is not older than the source is returned
  as it is; otherwise the source is encoded at full resolution (no resize, JPEG quality
  92), and when the encoder succeeds the call returns the full-size path and the disk
  holds exactly the encoder's output there, written at the time of the call; when the
  encoder fails the call rejects and returns no path.
\<close>

theorem generateFullSizePreview_iff_large:
  assumes "fs imagePath = Some src" and "read_metadata cd (data src) = Some meta"
  shows "(maxDimension meta \<le> 1600 \<longrightarrow>
            generateFullSizePreview cd now sm fs imagePath imageName = (Inr None, fs)) \<and>
         (maxDimension meta > 1600 \<longrightarrow>
            ((case fs (getFullSizePreviewPath sm imageName) of
                Some d \<Rightarrow> mtimeMs src \<le> mtimeMs d | None \<Rightarrow> False) \<longrightarrow>
               generateFullSizePreview cd now sm fs imagePath imageName =
                 (Inr (Some (getFullSizePreviewPath sm imageName)), fs)) \<and>
            (\<not> (case fs (getFullSizePreviewPath sm imageName) of
                   Some d \<Rightarrow> mtimeMs src \<le> mtimeMs d | None \<Rightarrow> False) \<longrightarrow>
               (\<forall>out. run_pipeline cd full_pipeline (data src) = Rendered out \<longrightarrow>
                  generateFullSizePreview cd now sm fs imagePath imageName =
                    (Inr (Some (getFullSizePreviewPath sm imageName)),
                     fs(getFullSizePreviewPath sm imageName \<mapsto>
                          \<lparr>data = out, mtimeMs = now,
                           birthtimeMs =
                             (case fs (getFullSizePreviewPath sm imageName) of
                                Some old \<Rightarrow> birthtimeMs old | None \<Rightarrow> now)\<rparr>))) \<and>
               (\<forall>part. run_pipeline cd full_pipeline (data src) = Failed part \<longrightarrow>
                  fst (generateFullSizePreview cd now sm fs imagePath imageName) =
                    Inl EncodeError)))"
  using assms
  by (auto simp: generateFullSizePreview_def sharp_metadata_def Let_def derivative_fresh_def
      pathExists_def fs_stat_def sharp_toFile_def write_file_def
      split: option.splits render.splits)

theorem generateFullSizePreview_iff_large_witness:
  "demo_disk ''/pics/a.jpg'' = Some \<lparr>data = ''small'', mtimeMs = 1000, birthtimeMs = 900\<rparr> \<and>
   read_metadata demo_codec ''small'' = Some \<lparr>m_width = Some 800, m_height = Some 600\<rparr> \<and>
   generateFullSizePreview demo_codec 5000 pics demo_disk ''/pics/a.jpg'' ''a.jpg'' =
     (Inr None, demo_disk) \<and>
   demo_disk ''/pics/b.jpg'' = Some \<lparr>data = ''large'', mtimeMs = 1000, birthtimeMs = 900\<rparr> \<and>
   read_metadata demo_codec ''large'' = Some \<lparr>m_width = Some 3000, m_height = Some 2000\<rparr> \<and>
   demo_disk ''/pics/.capture-open/previews/b.jpg.full.jpg'' = None \<and>
   run_pipeline demo_codec full_pipeline ''large'' = Rendered ''jpg:large'' \<and>
   generateFullSizePreview demo_codec 5000 pics demo_disk ''/pics/b.jpg'' ''b.jpg'' =
     (Inr (Some ''/pics/.capture-open/previews/b.jpg.full.jpg''),
      demo_disk(''/pics/.capture-open/previews/b.jpg.full.jpg'' \<mapsto>
        \<lparr>data = ''jpg:large'', mtimeMs = 5000, birthtimeMs = 5000\<rparr>)) \<and>
   demo_disk ''/pics/c.jpg'' = Some \<lparr>data = ''broken'', mtimeMs = 1000, birthtimeMs = 900\<rparr> \<and>
   read_metadata demo_codec ''broken'' = Some \<lparr>m_width = Some 3000, m_height = Some 2000\<rparr> \<and>
   run_pipeline demo_codec full_pipeline ''broken'' = Failed (Some ''par'') \<and>
   fst (generateFullSizePreview demo_codec 5000 pics demo_disk ''/pics/c.jpg'' ''c.jpg'') =
     Inl EncodeError"
proof -
  have ma: "read_metadata demo_codec ''small'' = Some \<lparr>m_width = Some 800, m_height = Some 600\<rparr>"
    and mb: "read_metadata demo_codec ''large'' = Some \<lparr>m_width = Some 3000, m_height = Some 2000\<rparr>"
    and mc: "read_metadata demo_codec ''broken'' = Some \<lparr>m_width = Some 3000, m_height = Some 2000\<rparr>"
    and rb: "run_pipeline demo_codec full_pipeline ''large'' = Rendered ''jpg:large''"
    and rc: "run_pipeline demo_codec full_pipeline ''broken'' = Failed (Some ''par'')"
    by (simp_all add: demo_codec_def)
  have small: "maxDimension \<lparr>m_width = Some 800, m_height = Some 600\<rparr> \<le> 1600"
    by (simp add: maxDimension_def orZero_def)
  have large: "maxDimension \<lparr>m_width = Some 3000, m_height = Some 2000\<rparr> > 1600"
    by (simp add: maxDimension_def orZero_def)
  have pb: "getFullSizePreviewPath pics ''b.jpg'' = ''/pics/.capture-open/previews/b.jpg.full.jpg''"
    and pc: "getFullSizePreviewPath pics ''c.jpg'' = ''/pics/.capture-open/previews/c.jpg.full.jpg''"
    by (simp_all add: path_defs)
  have fb: "demo_disk ''/pics/.capture-open/previews/b.jpg.full.jpg'' = None"
    and fc: "demo_disk ''/pics/.capture-open/previews/c.jpg.full.jpg'' = None"
    by (simp_all add: demo_disk_def)
  from generateFullSizePreview_iff_large [where fs = demo_disk and imagePath = "''/pics/a.jpg''"
      and cd = demo_codec and now = 5000 and sm = pics and imageName = "''a.jpg''", OF demo_a] ma
    small
  have 1: "generateFullSizePreview demo_codec 5000 pics demo_disk ''/pics/a.jpg'' ''a.jpg'' =
     (Inr None, demo_disk)" by simp
  from generateFullSizePreview_iff_large [where fs = demo_disk and imagePath = "''/pics/b.jpg''"
      and cd = demo_codec and now = 5000 and sm = pics and imageName = "''b.jpg''", OF demo_b] mb
    large rb fb
  have 2: "generateFullSizePreview demo_codec 5000 pics demo_disk ''/pics/b.jpg'' ''b.jpg'' =
     (Inr (Some ''/pics/.capture-open/previews/b.jpg.full.jpg''),
      demo_disk(''/pics/.capture-open/previews/b.jpg.full.jpg'' \<mapsto>
        \<lparr>data = ''jpg:large'', mtimeMs = 5000, birthtimeMs = 5000\<rparr>))"
    by (simp add: pb)
  from generateFullSizePreview_iff_large [where fs = demo_disk and imagePath = "''/pics/c.jpg''"
      and cd = demo_codec and now = 5000 and sm = pics and imageName = "''c.jpg''", OF demo_c] mc
    large rc fc
  have 3: "fst (generateFullSizePreview demo_codec 5000 pics demo_disk ''/pics/c.jpg'' ''c.jpg'') =
     Inl EncodeError"
    by (simp add: pc)
  from demo_a demo_b demo_c ma mb mc rb rc fb 1 2 3 show ?thesis by simp
qed

lemma direct_write_frame:
  "direct_write cd now fs imagePath final res \<Longrightarrow> p \<noteq> final \<Longrightarrow> snd res p = fs p"
  by (auto simp: direct_write_def write_file_def)

lemma direct_write_toFile:
  "sharp_toFile cd now fs imagePath pl final = (r, fs') \<Longrightarrow>
   direct_write cd now fs imagePath final
     (case r of Some e \<Rightarrow> Inl e | None \<Rightarrow> Inr (Some final), fs')"
  unfolding direct_write_def
  by (drule sharp_toFile_cases) (auto split: option.splits)

lemma generateThumbnail_direct:
  "direct_write cd now fs imagePath (getThumbnailPath sm imageName)
     (generate Thumbnail cd now sm fs imagePath imageName)"
proof (cases "derivative_fresh fs imagePath (getThumbnailPath sm imageName)")
  case (Inl e)
  then show ?thesis by (simp add: generate_def generateThumbnail_def direct_write_def)
next
  case (Inr b)
  show ?thesis
  proof (cases b)
    case True
    with Inr show ?thesis by (simp add: generate_def generateThumbnail_def direct_write_def)
  next
    case False
    obtain r fs' where t: "sharp_toFile cd now fs imagePath thumbnail_pipeline
        (getThumbnailPath sm imageName) = (r, fs')" by fastforce
    from direct_write_toFile [OF t] Inr False t show ?thesis
      by (cases r) (simp_all add: generate_def generateThumbnail_def)
  qed
qed

lemma generateStandardPreview_direct:
  "direct_write cd now fs imagePath (getStandardPreviewPath sm imageName)
     (generate StandardPreview cd now sm fs imagePath imageName)"
proof (cases "derivative_fresh fs imagePath (getStandardPreviewPath sm imageName)")
  case (Inl e)
  then show ?thesis by (simp add: generate_def generateStandardPreview_def direct_write_def)
next
  case (Inr b)
  show ?thesis
  proof (cases b)
    case True
    with Inr show ?thesis by (simp add: generate_def generateStandardPreview_def direct_write_def)
  next
    case False
    show ?thesis
    proof (cases "sharp_metadata cd fs imagePath")
      case (Inl e)
      with Inr False show ?thesis
        by (simp add: generate_def generateStandardPreview_def direct_write_def)
    next
      case m: (Inr meta)
      let ?q = "if maxDimension meta \<le> 1600 then 92 else (80::nat)"
      obtain r fs' where t: "sharp_toFile cd now fs imagePath (standard_pipeline ?q)
        (getStandardPreviewPath sm imageName) = (r, fs')" by fastforce
      from direct_write_toFile [OF t] Inr False t m show ?thesis
        by (cases r) (simp_all add: generate_def generateStandardPreview_def Let_def)
    qed
  qed
qed

lemma generateFullSizePreview_direct:
  "direct_write cd now fs imagePath (getFullSizePreviewPath sm imageName)
     (generate FullPreview cd now sm fs imagePath imageName)"
proof (cases "sharp_metadata cd fs imagePath")
  case (Inl e)
  then show ?thesis by (simp add: generate_def generateFullSizePreview_def direct_write_def)
next
  case m: (Inr meta)
  show ?thesis
  proof (cases "maxDimension meta \<le> 1600")
    case True
    with m show ?thesis by (simp add: generate_def generateFullSizePreview_def direct_write_def)
  next
    case big: False
    show ?thesis
    proof (cases "derivative_fresh fs imagePath (getFullSizePreviewPath sm imageName)")
      case (Inl e)
      with m big show ?thesis
        by (simp add: generate_def generateFullSizePreview_def direct_write_def)
    next
      case (Inr b)
      show ?thesis
      proof (cases b)
        case True
        with Inr m big show ?thesis
          by (simp add: generate_def generateFullSizePreview_def direct_write_def)
      next
        case False
        obtain r fs' where t: "sharp_toFile cd now fs imagePath full_pipeline
          (getFullSizePreviewPath sm imageName) = (r, fs')" by fastforce
        from direct_write_toFile [OF t] Inr False t m big show ?thesis
          by (cases r) (simp_all add: generate_def generateFullSizePreview_def Let_def)
      qed
    qed
  qed
qed

lemma generate_direct:
  "direct_write cd now fs imagePath (derivative_path t sm imageName)
     (generate t cd now sm fs imagePath imageName)"
  using generateThumbnail_direct [of cd now fs imagePath sm imageName]
    generateStandardPreview_direct [of cd now fs imagePath sm imageName]
    generateFullSizePreview_direct [of cd now fs imagePath sm imageName]
  by (cases t) (simp_all add: derivative_path_def)

text \<open>
  Claim C6, amended. For every tier, when the source exists and the derivative file
  exists with an mtime not older than the source's, the generation call leaves the disk
  as it was. The thumbnail and standard tiers return the existing derivative path. The
  full-size tier reads the source's dimensions first: it returns the existing path when
  the longer edge exceeds 1600, \<open>null\<close> when it does not, and rejects when the source does
  not decode.
\<close>

theorem generate_fresh_noop:
  assumes "fs imagePath = Some src"
    and "fs (derivative_path t sm imageName) = Some d"
    and "mtimeMs d \<ge> mtimeMs src"
  shows "snd (generate t cd now sm fs imagePath imageName) = fs \<and>
         (t \<noteq> FullPreview \<longrightarrow>
            fst (generate t cd now sm fs imagePath imageName) =
              Inr (Some (derivative_path t sm imageName))) \<and>
         (t = FullPreview \<longrightarrow>
            fst (generate t cd now sm fs imagePath imageName) =
              (case read_metadata cd (data src) of
                 None \<Rightarrow> Inl DecodeError
               | Some meta \<Rightarrow>
                   if maxDimension meta \<le> 1600 then Inr None
                   else Inr (Some (derivative_path t sm imageName))))"
proof (cases t)
  case Thumbnail
  with assms derivative_fresh_True [of fs imagePath src "getThumbnailPath sm imageName" d]
  show ?thesis by (simp add: derivative_path_def generate_def generateThumbnail_def)
next
  case StandardPreview
  with assms derivative_fresh_True [of fs imagePath src "getStandardPreviewPath sm imageName" d]
  show ?thesis by (simp add: derivative_path_def generate_def generateStandardPreview_def)
next
  case FullPreview
  with assms derivative_fresh_True [of fs imagePath src "getFullSizePreviewPath sm imageName" d]
  show ?thesis
    by (simp add: derivative_path_def generate_def generateFullSizePreview_def
        sharp_metadata_def split: option.splits)
qed

theorem generate_fresh_noop_witness:
  "demo_disk ''/pics/b.jpg'' = Some \<lparr>data = ''large'', mtimeMs = 1000, birthtimeMs = 900\<rparr> \<and>
   demo_disk (derivative_path Thumbnail pics ''b.jpg'') =
     Some \<lparr>data = ''jpg:large'', mtimeMs = 2000, birthtimeMs = 2000\<rparr> \<and>
   generate Thumbnail demo_codec 5000 pics demo_disk ''/pics/b.jpg'' ''b.jpg'' =
     (Inr (Some ''/pics/.capture-open/thumbnails/b.jpg.thumb.webp''), demo_disk)"
proof -
  have p: "derivative_path Thumbnail pics ''b.jpg'' = ''/pics/.capture-open/thumbnails/b.jpg.thumb.webp''"
    by (simp add: derivative_path_def path_defs)
  from generate_fresh_noop [OF demo_b demo_b_thumb, of demo_codec 5000]
  have "snd (generate Thumbnail demo_codec 5000 pics demo_disk ''/pics/b.jpg'' ''b.jpg'') = demo_disk"
    and "fst (generate Thumbnail demo_codec 5000 pics demo_disk ''/pics/b.jpg'' ''b.jpg'') =
         Inr (Some ''/pics/.capture-open/thumbnails/b.jpg.thumb.webp'')"
    by (simp_all add: p)
  then have "generate Thumbnail demo_codec 5000 pics demo_disk ''/pics/b.jpg'' ''b.jpg'' =
     (Inr (Some ''/pics/.capture-open/thumbnails/b.jpg.thumb.webp''), demo_disk)"
    by (simp add: prod_eq_iff)
  with demo_b demo_b_thumb show ?thesis by simp
qed

text \<open>
  Claim C6 as stated fails for the full-size tier: \<open>a.jpg\<close> is 800 x 600 and its full-size
  derivative file exists with a newer mtime; the call writes nothing (so a second call
  sees the same disk) and returns \<open>null\<close>, not the existing derivative path.
\<close>

theorem generate_fresh_returns_path_counterexample:
  "map_option mtimeMs (demo_disk ''/pics/a.jpg'') = Some 1000 \<and>
   map_option mtimeMs (demo_disk (derivative_path FullPreview pics ''a.jpg'')) = Some 2000 \<and>
   generate FullPreview demo_codec 5000 pics demo_disk ''/pics/a.jpg'' ''a.jpg'' = (Inr None, demo_disk) \<and>
   fst (generate FullPreview demo_codec 5000 pics demo_disk ''/pics/a.jpg'' ''a.jpg'')
     \<noteq> Inr (Some (derivative_path FullPreview pics ''a.jpg''))"
  by (simp add: demo_a demo_a_full generate_def generateFullSizePreview_def sharp_metadata_def
      demo_codec_def maxDimension_def orZero_def)

text \<open>
  Claim C7, amended. No generation call goes through a temporary file and a rename: a
  call changes no path other than the final derivative path, and at that path it either
  writes nothing, or hands the path to the encoder, after which the path holds the whole
  output (and the path is returned) or the prefix written before the encoder failed
  (and the call rejects).
\<close>

theorem generate_writes_final_path_directly:
  "(\<forall>p. p \<noteq> derivative_path t sm imageName \<longrightarrow>
        snd (generate t cd now sm fs imagePath imageName) p = fs p) \<and>
   direct_write cd now fs imagePath (derivative_path t sm imageName)
     (generate t cd now sm fs imagePath imageName)"
  using generate_direct [of cd now fs imagePath t sm imageName]
  by (auto dest: direct_write_frame)

theorem generate_writes_final_path_directly_witness:
  "''/pics/b.jpg'' \<noteq> derivative_path FullPreview pics ''b.jpg'' \<and>
   snd (generate FullPreview demo_codec 5000 pics demo_disk ''/pics/b.jpg'' ''b.jpg'') ''/pics/b.jpg''
     = demo_disk ''/pics/b.jpg'' \<and>
   direct_write demo_codec 5000 demo_disk ''/pics/b.jpg'' (derivative_path FullPreview pics ''b.jpg'')
     (generate FullPreview demo_codec 5000 pics demo_disk ''/pics/b.jpg'' ''b.jpg'') \<and>
   generate FullPreview demo_codec 5000 pics demo_disk ''/pics/b.jpg'' ''b.jpg'' =
     (Inr (Some ''/pics/.capture-open/previews/b.jpg.full.jpg''),
      write_file demo_disk ''/pics/.capture-open/previews/b.jpg.full.jpg'' ''jpg:large'' 5000)"
proof -
  have ne: "''/pics/b.jpg'' \<noteq> derivative_path FullPreview pics ''b.jpg''"
    by (simp add: derivative_path_def path_defs)
  have ev: "generate FullPreview demo_codec 5000 pics demo_disk ''/pics/b.jpg'' ''b.jpg'' =
     (Inr (Some ''/pics/.capture-open/previews/b.jpg.full.jpg''),
      write_file demo_disk ''/pics/.capture-open/previews/b.jpg.full.jpg'' ''jpg:large'' 5000)"
    using demo_b_full
    by (simp add: generate_def generateFullSizePreview_def sharp_metadata_def demo_b
        demo_codec_def maxDimension_def orZero_def derivative_fresh_def pathExists_def
        sharp_toFile_def path_defs)
  from generate_writes_final_path_directly
    [of FullPreview pics "''b.jpg''" demo_codec 5000 demo_disk "''/pics/b.jpg''"] ne ev
  show ?thesis by simp
qed

text \<open>
  Claim C7 as stated fails: the thumbnail of \<open>c.jpg\<close> is stale and holds \<open>old\<close>; the
  encoder fails after writing \<open>par\<close>; after the rejected call the final thumbnail path
  holds \<open>par\<close>, which is neither the old derivative nor nothing.
\<close>

theorem generateThumbnail_partial_counterexample:
  "map_option data (demo_disk (getThumbnailPath pics ''c.jpg'')) = Some ''old'' \<and>
   fst (generateThumbnail demo_codec 5000 pics demo_disk ''/pics/c.jpg'' ''c.jpg'') = Inl EncodeError \<and>
   map_option data
     (snd (generateThumbnail demo_codec 5000 pics demo_disk ''/pics/c.jpg'' ''c.jpg'')
        (getThumbnailPath pics ''c.jpg'')) = Some ''par''"
  by (simp add: demo_c demo_c_thumb generateThumbnail_def derivative_fresh_def pathExists_def
      fs_stat_def sharp_toFile_def demo_codec_def write_file_def)

section \<open>Properties of the Derivative Server\<close>

text \<open>
  Claim C4, amended. A request to the full tier of an unregistered project is answered
  \<open>Project not found\<close>. For a registered project the server streams the full-size file
  when it exists; when it is absent it streams the standard preview when that exists,
  which is then the very response of the standard tier; it answers not found when both
  are absent. For a source whose longer edge is at most 1600, \<open>generateFullSizePreview\<close>
  leaves an absent full-size file absent, so on a disk without a full-size file for the
  name the full and the standard request resolve to the same bytes.
\<close>

theorem get_full_resolution:
  "(server_managers srv projectId = None \<longrightarrow>
      get_full srv fs projectId filename = Status404 ''Project not found'') \<and>
   (\<forall>sm. server_managers srv projectId = Some sm \<longrightarrow>
      (\<forall>f. fs (getFullSizePreviewPath sm filename) = Some f \<longrightarrow>
           get_full srv fs projectId filename =
             Ok200 ''public, max-age=31536000'' ''image/jpeg'' (data f)) \<and>
      (fs (getFullSizePreviewPath sm filename) = None \<longrightarrow>
         (\<forall>f. fs (getStandardPreviewPath sm filename) = Some f \<longrightarrow>
              get_full srv fs projectId filename =
                Ok200 ''public, max-age=31536000'' ''image/jpeg'' (data f) \<and>
              get_full srv fs projectId filename = get_standard srv fs projectId filename) \<and>
         (fs (getStandardPreviewPath sm filename) = None \<longrightarrow>
              get_full srv fs projectId filename = Status404 ''Full preview not found'')) \<and>
      (\<forall>cd now imagePath meta.
         sharp_metadata cd fs imagePath = Inr meta \<and> maxDimension meta \<le> 1600 \<and>
         fs (getFullSizePreviewPath sm filename) = None \<longrightarrow>
         snd (generateFullSizePreview cd now sm fs imagePath filename)
           (getFullSizePreviewPath sm filename) = None \<and>
         (\<forall>f. snd (generateFullSizePreview cd now sm fs imagePath filename)
                (getStandardPreviewPath sm filename) = Some f \<longrightarrow>
              get_full srv (snd (generateFullSizePreview cd now sm fs imagePath filename))
                projectId filename =
              Ok200 ''public, max-age=31536000'' ''image/jpeg'' (data f) \<and>
              get_standard srv (snd (generateFullSizePreview cd now sm fs imagePath filename))
                projectId filename =
              Ok200 ''public, max-age=31536000'' ''image/jpeg'' (data f))))"
proof -
  have small: "\<And>cd now sm imagePath meta.
      sharp_metadata cd fs imagePath = Inr meta \<Longrightarrow> maxDimension meta \<le> 1600 \<Longrightarrow>
      snd (generateFullSizePreview cd now sm fs imagePath filename) = fs"
    by (simp add: generateFullSizePreview_def)
  show ?thesis
    by (auto simp: get_full_def get_standard_def stream_file_def pathExists_def Let_def small)
qed

theorem get_full_resolution_witness:
  "server_managers demo_server ''_pics'' = Some pics \<and>
   server_managers demo_server ''_other'' = None \<and>
   get_full demo_server demo_disk ''_other'' ''a.jpg'' = Status404 ''Project not found'' \<and>
   demo_disk (getFullSizePreviewPath pics ''d.jpg'') = None \<and>
   demo_disk (getStandardPreviewPath pics ''d.jpg'') =
     Some \<lparr>data = ''jpg:small'', mtimeMs = 2000, birthtimeMs = 2000\<rparr> \<and>
   get_full demo_server demo_disk ''_pics'' ''d.jpg'' =
     Ok200 ''public, max-age=31536000'' ''image/jpeg'' ''jpg:small'' \<and>
   get_full demo_server demo_disk ''_pics'' ''d.jpg'' =
     get_standard demo_server demo_disk ''_pics'' ''d.jpg'' \<and>
   demo_disk (getStandardPreviewPath pics ''b.jpg'') = None \<and>
   demo_disk (getFullSizePreviewPath pics ''b.jpg'') = None \<and>
   get_full demo_server demo_disk ''_pics'' ''b.jpg'' = Status404 ''Full preview not found''"
proof -
  have r: "server_managers demo_server ''_pics'' = Some pics"
    and u: "server_managers demo_server ''_other'' = None"
    by (simp_all add: demo_server_def)
  have df: "demo_disk (getFullSizePreviewPath pics ''d.jpg'') = None"
    and ds: "demo_disk (getStandardPreviewPath pics ''d.jpg'') =
      Some \<lparr>data = ''jpg:small'', mtimeMs = 2000, birthtimeMs = 2000\<rparr>"
    and bs: "demo_disk (getStandardPreviewPath pics ''b.jpg'') = None"
    and bf: "demo_disk (getFullSizePreviewPath pics ''b.jpg'') = None"
    by (simp_all add: demo_disk_def path_defs)
  from get_full_resolution [of demo_server "''_other''" demo_disk "''a.jpg''"] u
  have 1: "get_full demo_server demo_disk ''_other'' ''a.jpg'' = Status404 ''Project not found''"
    by simp
  from get_full_resolution [of demo_server "''_pics''" demo_disk "''d.jpg''"] r df ds
  have 2: "get_full demo_server demo_disk ''_pics'' ''d.jpg'' =
     Ok200 ''public, max-age=31536000'' ''image/jpeg'' ''jpg:small''"
    and 3: "get_full demo_server demo_disk ''_pics'' ''d.jpg'' =
     get_standard demo_server demo_disk ''_pics'' ''d.jpg''"
    by auto
  from get_full_resolution [of demo_server "''_pics''" demo_disk "''b.jpg''"] r bs bf
  have 4: "get_full demo_server demo_disk ''_pics'' ''b.jpg'' = Status404 ''Full preview not found''"
    by simp
  from r u 1 df ds 2 3 bs bf 4 show ?thesis by simp
qed

text \<open>
  Claim C4 as stated fails where a full-size file is on disk for a source that is small
  now: \<open>a.jpg\<close> is 800 x 600, the full request streams the full-size file \<open>old-full\<close>, the
  standard request streams \<open>jpg:small\<close>.
\<close>

theorem get_full_small_source_counterexample:
  "sharp_metadata demo_codec demo_disk ''/pics/a.jpg'' =
     Inr \<lparr>m_width = Some 800, m_height = Some 600\<rparr> \<and>
   maxDimension \<lparr>m_width = Some 800, m_height = Some 600\<rparr> \<le> 1600 \<and>
   get_full demo_server demo_disk ''_pics'' ''a.jpg'' =
     Ok200 ''public, max-age=31536000'' ''image/jpeg'' ''old-full'' \<and>
   get_standard demo_server demo_disk ''_pics'' ''a.jpg'' =
     Ok200 ''public, max-age=31536000'' ''image/jpeg'' ''jpg:small'' \<and>
   get_full demo_server demo_disk ''_pics'' ''a.jpg''
     \<noteq> get_standard demo_server demo_disk ''_pics'' ''a.jpg''"
proof -
  have af: "demo_disk (getFullSizePreviewPath pics ''a.jpg'') =
      Some \<lparr>data = ''old-full'', mtimeMs = 2000, birthtimeMs = 2000\<rparr>"
    and as: "demo_disk (getStandardPreviewPath pics ''a.jpg'') =
      Some \<lparr>data = ''jpg:small'', mtimeMs = 2000, birthtimeMs = 2000\<rparr>"
    by (simp_all add: demo_disk_def path_defs)
  show ?thesis
    by (simp add: sharp_metadata_def demo_a demo_codec_def maxDimension_def orZero_def
        get_full_def get_standard_def demo_server_def stream_file_def pathExists_def af as)
qed

section \<open>Properties of the Reconciliation Engine\<close>

lemma generateThumbnail_frame:
  "p \<noteq> getThumbnailPath sm f \<Longrightarrow> snd (generateThumbnail cd now sm fs imagePath f) p = fs p"
  by (auto simp: generateThumbnail_def Let_def sharp_toFile_def write_file_def
      split: sum.splits bool.splits option.splits render.splits)

lemma generateThumbnail_ok:
  "(\<exists>p. fst (generateThumbnail cd now sm fs imagePath f) = Inr p) \<longleftrightarrow>
     thumbnail_ok cd fs imagePath (getThumbnailPath sm f)"
  by (auto simp: generateThumbnail_def Let_def sharp_toFile_def thumbnail_ok_def
      derivative_fresh_def pathExists_def fs_stat_def
      split: sum.splits bool.splits option.splits render.splits)

lemma processable_alt:
  "processable cd fs folder sm f \<longleftrightarrow>
     thumbnail_ok cd fs (path_join folder f) (getThumbnailPath sm f) \<and>
     (\<exists>src meta. fs (path_join folder f) = Some src \<and> read_metadata cd (data src) = Some meta) \<and>
     (\<forall>j. fs (getMetadataPath sm f) = Some j \<longrightarrow> parse_json cd (data j) \<noteq> None)"
  by (auto simp: processable_def thumbnail_ok_def split: option.splits)

lemma processImageWithSidecar_outcome:
  assumes ts: "getThumbnailPath sm f \<noteq> path_join folder f"
    and tm: "getThumbnailPath sm f \<noteq> getMetadataPath sm f"
    and new: "get_image (dbManager eng) (path_join folder f) = None"
    and run: "processImageWithSidecar cd now eng folder f projectId sm = (d, eng')"
  shows "d_name d = f \<and> sent eng' = sent eng \<and> mainWindow eng' = mainWindow eng \<and>
     (\<forall>p. p \<noteq> getThumbnailPath sm f \<longrightarrow> disk eng' p = disk eng p) \<and>
     degraded d = (\<not> processable cd (disk eng) folder sm f) \<and>
     images (dbManager eng') = images (dbManager eng) @
       (if processable cd (disk eng) folder sm f
        then [stored_row cd (disk eng) folder projectId sm f] else [])"
proof -
  let ?src = "path_join folder f" and ?th = "getThumbnailPath sm f"
  let ?me = "getMetadataPath sm f" and ?fs = "disk eng"
  obtain r fs1 where gt: "generateThumbnail cd now sm ?fs ?src f = (r, fs1)" by fastforce
  have frame: "\<And>p. p \<noteq> ?th \<Longrightarrow> fs1 p = ?fs p"
    using generateThumbnail_frame [of _ sm f cd now ?fs ?src] gt by simp
  have fsrc: "fs1 ?src = ?fs ?src" using frame ts by metis
  have fme: "fs1 ?me = ?fs ?me" using frame tm by metis
  have ok: "(\<exists>p. r = Inr p) \<longleftrightarrow> thumbnail_ok cd ?fs ?src ?th"
    using generateThumbnail_ok [of cd now sm ?fs ?src f] gt by simp
  let ?fb = "(fallback_record now ?src f, eng\<lparr>disk := fs1\<rparr>)"
  have fb: "(d, eng') = ?fb \<Longrightarrow> \<not> processable cd ?fs folder sm f \<Longrightarrow> ?thesis"
    using frame by (auto simp: fallback_record_def degraded_def)
  show ?thesis
  proof (cases r)
    case (Inl e)
    with ok have np: "\<not> processable cd ?fs folder sm f" by (auto simp: processable_alt)
    from run gt Inl have "(d, eng') = ?fb"
      by (simp add: processImageWithSidecar_def Let_def)
    from fb [OF this np] show ?thesis .
  next
    case (Inr tp)
    with ok have tok: "thumbnail_ok cd ?fs ?src ?th" by auto
    then obtain src where src: "?fs ?src = Some src"
      by (auto simp: thumbnail_ok_def split: option.splits)
    show ?thesis
    proof (cases "read_metadata cd (data src)")
      case None
      then have np: "\<not> processable cd ?fs folder sm f" using src by (auto simp: processable_alt)
      have "sharp_metadata cd fs1 ?src = Inl DecodeError"
        by (simp add: sharp_metadata_def fsrc src None)
      with run gt Inr have "(d, eng') = ?fb"
        by (simp add: processImageWithSidecar_def Let_def)
      from fb [OF this np] show ?thesis .
    next
      case (Some meta)
      have sm: "sharp_metadata cd fs1 ?src = Inr meta"
        by (simp add: sharp_metadata_def fsrc src Some)
      have st: "fs_stat fs1 ?src = Inr src" by (simp add: fs_stat_def fsrc src)
      show ?thesis
      proof (cases "loadMetadata cd sm fs1 f")
        case bad: (Inl e)
        then have np: "\<not> processable cd ?fs folder sm f"
          by (auto simp: processable_alt loadMetadata_def fme split: option.splits)
        from run gt Inr sm bad have "(d, eng') = ?fb"
          by (simp add: processImageWithSidecar_def Let_def)
        from fb [OF this np] show ?thesis .
      next
        case good: (Inr existingMeta)
        then have json: "\<forall>j. ?fs ?me = Some j \<longrightarrow> parse_json cd (data j) \<noteq> None"
          and em: "existingMeta =
             (case ?fs ?me of
                Some j \<Rightarrow> (case parse_json cd (data j) of Some v \<Rightarrow> v | None \<Rightarrow> None)
              | None \<Rightarrow> None)"
          by (auto simp: loadMetadata_def fme split: option.splits)
        have p: "processable cd ?fs folder sm f"
          using tok src Some json by (auto simp: processable_alt)
        have row: "stored_row cd ?fs folder projectId sm f =
            \<lparr>image_id = ?src, project_id = projectId, file_path = ?src, file_name = f,
             file_size = length (data src),
             width = orZero (m_width meta), height = orZero (m_height meta),
             created_at = birthtimeMs src, modified_at = mtimeMs src,
             rating = orZeroInt (case existingMeta of None \<Rightarrow> None | Some j \<Rightarrow> j_rating j)\<rparr>"
          by (simp add: stored_row_def Let_def src Some em)
        have ins: "upsertImage (dbManager eng) (stored_row cd ?fs folder projectId sm f) =
            (None, checkOptimization ((dbManager eng)\<lparr>images := images (dbManager eng) @
               [stored_row cd ?fs folder projectId sm f]\<rparr>))"
          using new by (intro upsertImage_absent_inserts) (simp add: row)
        from run gt Inr sm good st ins [unfolded row]
        have "d_name d = f \<and> \<not> degraded d \<and> sent eng' = sent eng \<and>
            mainWindow eng' = mainWindow eng \<and> disk eng' = fs1 \<and>
            images (dbManager eng') = images (dbManager eng) @
              [stored_row cd ?fs folder projectId sm f]"
          by (auto simp: processImageWithSidecar_def Let_def degraded_def
              images_checkOptimization row)
        with p frame show ?thesis by auto
      qed
    qed
  qed
qed

lemma separated_subset: "separated folder sm F \<Longrightarrow> G \<subseteq> F \<Longrightarrow> separated folder sm G"
  by (auto simp: separated_def)

lemma separated_normal:
  assumes "normal_folder d" and "\<forall>f \<in> F. plain_name f"
  shows "separated d (SidecarManager d) F"
proof -
  have "\<And>f g. plain_name f \<Longrightarrow> plain_name g \<Longrightarrow>
      (path_join d f = path_join d g \<longrightarrow> f = g) \<and>
      (getThumbnailPath (SidecarManager d) g = getThumbnailPath (SidecarManager d) f \<longrightarrow> g = f) \<and>
      getThumbnailPath (SidecarManager d) g \<noteq> path_join d f \<and>
      getThumbnailPath (SidecarManager d) g \<noteq> getMetadataPath (SidecarManager d) f"
    using assms(1)
    by (auto simp: sidecar_paths_normal path_join_normal plain_name_def)
  with assms(2) show ?thesis by (auto simp: separated_def)
qed

lemma processable_cong:
  assumes a: "fs (path_join folder f) = fs0 (path_join folder f)"
    and b: "fs (getThumbnailPath sm f) = fs0 (getThumbnailPath sm f)"
    and c: "fs (getMetadataPath sm f) = fs0 (getMetadataPath sm f)"
  shows "processable cd fs folder sm f = processable cd fs0 folder sm f \<and>
   stored_row cd fs folder projectId sm f = stored_row cd fs0 folder projectId sm f"
  unfolding processable_def stored_row_def Let_def a b c by simp

lemma diff_outcome_Nil: "diff_outcome cd fs0 folder projectId sm [] [] []"
  by (simp add: diff_outcome_def)

lemma diff_outcome_append:
  "diff_outcome cd fs0 folder projectId sm fs1 ds1 rows1 \<Longrightarrow>
   diff_outcome cd fs0 folder projectId sm fs2 ds2 rows2 \<Longrightarrow>
   diff_outcome cd fs0 folder projectId sm (fs1 @ fs2) (ds1 @ ds2) (rows1 @ rows2)"
  by (auto simp: diff_outcome_def)

lemma run_in_order_outcome:
  "run_in_order cd now eng folder projectId sm xs = (done, eng') \<Longrightarrow>
   distinct xs \<Longrightarrow> separated folder sm (set xs) \<Longrightarrow>
   \<forall>f \<in> set xs. path_join folder f \<notin> image_id ` set (images (dbManager eng)) \<Longrightarrow>
   agrees folder sm (set xs) (disk eng) fs0 \<Longrightarrow>
   map fst done = xs \<and>
   (\<forall>(f, d) \<in> set done. d_name d = f \<and> degraded d = (\<not> processable cd fs0 folder sm f)) \<and>
   sent eng' = sent eng \<and> mainWindow eng' = mainWindow eng \<and>
   (\<forall>p. p \<notin> getThumbnailPath sm ` set xs \<longrightarrow> disk eng' p = disk eng p) \<and>
   images (dbManager eng') = images (dbManager eng) @
     map (stored_row cd fs0 folder projectId sm) (filter (processable cd fs0 folder sm) xs)"
proof (induction xs arbitrary: eng "done" eng')
  case Nil
  then show ?case by simp
next
  case (Cons f xs)
  obtain d eng1 where p: "processImageWithSidecar cd now eng folder f projectId sm = (d, eng1)"
    by fastforce
  obtain done2 eng2 where b: "run_in_order cd now eng1 folder projectId sm xs = (done2, eng2)"
    by fastforce
  from Cons.prems(1) p b have dn: "done = (f, d) # done2" and e: "eng' = eng2" by simp_all
  have sep: "separated folder sm (set (f # xs))" by (rule Cons.prems(3))
  have ts: "getThumbnailPath sm f \<noteq> path_join folder f"
    and tm: "getThumbnailPath sm f \<noteq> getMetadataPath sm f"
    using sep by (auto simp: separated_def)
  have new: "get_image (dbManager eng) (path_join folder f) = None"
    using Cons.prems(4) by (force simp: get_image_def find_None_iff image_iff)
  note eff = processImageWithSidecar_outcome [OF ts tm new p]
  have agf: "processable cd (disk eng) folder sm f = processable cd fs0 folder sm f"
    "stored_row cd (disk eng) folder projectId sm f = stored_row cd fs0 folder projectId sm f"
    using Cons.prems(5) processable_cong [of "disk eng" folder f fs0 sm cd projectId]
    by (auto simp: agrees_def)
  have img1: "images (dbManager eng1) = images (dbManager eng) @
      (if processable cd fs0 folder sm f then [stored_row cd fs0 folder projectId sm f] else [])"
    using eff agf by simp
  have id_row: "image_id (stored_row cd fs0 folder projectId sm f) = path_join folder f"
    by (simp add: stored_row_def Let_def)
  have dxs: "distinct xs" and fx: "f \<notin> set xs" using Cons.prems(2) by simp_all
  have sep2: "separated folder sm (set xs)"
    using sep by (rule separated_subset) auto
  have new2: "\<forall>g \<in> set xs. path_join folder g \<notin> image_id ` set (images (dbManager eng1))"
  proof
    fix g assume g: "g \<in> set xs"
    then have "g \<noteq> f" using fx by auto
    moreover have "path_join folder g = path_join folder f \<longrightarrow> g = f"
      using sep g by (auto simp: separated_def)
    ultimately have "path_join folder g \<noteq> path_join folder f" by auto
    moreover have "path_join folder g \<notin> image_id ` set (images (dbManager eng))"
      using Cons.prems(4) g by simp
    ultimately show "path_join folder g \<notin> image_id ` set (images (dbManager eng1))"
      by (auto simp: img1 id_row)
  qed
  have ag2: "agrees folder sm (set xs) (disk eng1) fs0"
    unfolding agrees_def
  proof
    fix g assume g: "g \<in> set xs"
    then have gf: "g \<noteq> f" using fx by auto
    have a: "getThumbnailPath sm f \<noteq> path_join folder g"
      "getThumbnailPath sm f \<noteq> getMetadataPath sm g"
      "getThumbnailPath sm f \<noteq> getThumbnailPath sm g"
      using sep g gf by (auto simp: separated_def)
    have "disk eng1 (path_join folder g) = disk eng (path_join folder g)"
      "disk eng1 (getThumbnailPath sm g) = disk eng (getThumbnailPath sm g)"
      "disk eng1 (getMetadataPath sm g) = disk eng (getMetadataPath sm g)"
      using eff a by (metis)+
    with Cons.prems(5) g
    show "disk eng1 (path_join folder g) = fs0 (path_join folder g) \<and>
          disk eng1 (getThumbnailPath sm g) = fs0 (getThumbnailPath sm g) \<and>
          disk eng1 (getMetadataPath sm g) = fs0 (getMetadataPath sm g)"
      by (auto simp: agrees_def)
  qed
  note ih = Cons.IH [OF b dxs sep2 new2 ag2]
  have frame: "\<forall>p. p \<notin> getThumbnailPath sm ` set (f # xs) \<longrightarrow> disk eng2 p = disk eng p"
    using ih eff by auto
  from ih eff agf img1 frame show ?case
    by (auto simp: dn e)
qed

lemma map_filter_total:
  "\<forall>x \<in> set xs. g x \<noteq> None \<Longrightarrow> List.map_filter g xs = map (\<lambda>x. the (g x)) xs"
  by (induction xs) (auto simp: map_filter_simps)

lemma foldl_send:
  "mainWindow eng \<Longrightarrow> foldl send eng ms = eng\<lparr>sent := sent eng @ ms\<rparr>"
  by (induction ms arbitrary: eng) (simp_all add: send_def)

lemma process_batch_outcome:
  assumes run: "process_batch order cd now eng folder projectId sm batch = (ds, eng')"
    and perm: "mset (order batch) = mset batch"
    and dist: "distinct batch"
    and sep: "separated folder sm (set batch)"
    and new: "\<forall>f \<in> set batch. path_join folder f \<notin> image_id ` set (images (dbManager eng))"
    and agr: "agrees folder sm (set batch) (disk eng) fs0"
  shows "sent eng' = sent eng \<and> mainWindow eng' = mainWindow eng \<and>
         (\<forall>p. p \<notin> getThumbnailPath sm ` set batch \<longrightarrow> disk eng' p = disk eng p) \<and>
         (\<exists>rows. images (dbManager eng') = images (dbManager eng) @ rows \<and>
                 diff_outcome cd fs0 folder projectId sm batch ds rows)"
proof -
  let ?xs = "order batch"
  have sx: "set ?xs = set batch" using perm by (rule mset_eq_setD)
  have dx: "distinct ?xs" using perm dist by (metis mset_eq_imp_distinct_iff)
  obtain "done" eng1 where r: "run_in_order cd now eng folder projectId sm ?xs = (done, eng1)"
    by fastforce
  from run r have ds: "ds = List.map_filter (map_of done) batch" and e: "eng' = eng1"
    by (simp_all add: process_batch_def)
  note out = run_in_order_outcome [OF r dx, of fs0, unfolded sx, OF sep new agr]
  from out have keys: "map fst done = ?xs" by simp
  have dk: "distinct (map fst done)" using keys dx by simp
  have look: "\<And>f. f \<in> set batch \<Longrightarrow>
      \<exists>d. map_of done f = Some d \<and> d_name d = f \<and>
          degraded d = (\<not> processable cd fs0 folder sm f)"
  proof -
    fix f assume "f \<in> set batch"
    then have "f \<in> set (map fst done)" using keys sx by simp
    then obtain d where fd: "(f, d) \<in> set done" by auto
    then have "map_of done f = Some d" using dk by simp
    moreover from out fd have "d_name d = f \<and> degraded d = (\<not> processable cd fs0 folder sm f)"
      by auto
    ultimately show "\<exists>d. map_of done f = Some d \<and> d_name d = f \<and>
          degraded d = (\<not> processable cd fs0 folder sm f)" by blast
  qed
  then have tot: "\<forall>f \<in> set batch. map_of done f \<noteq> None" by fastforce
  have ds': "ds = map (\<lambda>f. the (map_of done f)) batch"
    using map_filter_total [OF tot] ds by simp
  have each: "\<And>f. f \<in> set batch \<Longrightarrow> d_name (the (map_of done f)) = f \<and>
      degraded (the (map_of done f)) = (\<not> processable cd fs0 folder sm f)"
    using look by fastforce
  have names: "map d_name ds = batch"
    unfolding ds' using each by (simp add: map_idI)
  have degr: "map degraded ds = map (\<lambda>f. \<not> processable cd fs0 folder sm f) batch"
    unfolding ds' using each by simp
  let ?rows = "map (stored_row cd fs0 folder projectId sm)
      (filter (processable cd fs0 folder sm) ?xs)"
  have ms: "mset ?rows = mset (map (stored_row cd fs0 folder projectId sm)
      (filter (processable cd fs0 folder sm) batch))"
    using perm by (metis mset_filter mset_map)
  have "diff_outcome cd fs0 folder projectId sm batch ds ?rows"
    using names degr ms by (simp add: diff_outcome_def)
  with out show ?thesis by (auto simp: e)
qed

lemma process_new_files_outcome:
  "mainWindow eng \<Longrightarrow> distinct fs \<Longrightarrow> separated folder sm (set fs) \<Longrightarrow>
   \<forall>f \<in> set fs. path_join folder f \<notin> image_id ` set (images (dbManager eng)) \<Longrightarrow>
   agrees folder sm (set fs) (disk eng) fs0 \<Longrightarrow>
   \<forall>b. mset (order b) = mset b \<Longrightarrow>
   \<exists>ds rows.
     sent (process_new_files order cd now eng folder projectId sm fs) =
       sent eng @ map FileAdded ds \<and>
     images (dbManager (process_new_files order cd now eng folder projectId sm fs)) =
       images (dbManager eng) @ rows \<and>
     diff_outcome cd fs0 folder projectId sm fs ds rows"
proof (induction order cd now eng folder projectId sm fs rule: process_new_files.induct)
  case (1 order cd now eng folder projectId sm newFiles)
  show ?case
  proof (cases "newFiles = []")
    case True
    then show ?thesis
      using diff_outcome_Nil [of cd fs0 folder projectId sm]
      by (subst (1 2) process_new_files.simps) auto
  next
    case False
    let ?b = "take 10 newFiles" and ?r = "drop 10 newFiles"
    obtain ds1 eng1 where
      b: "process_batch order cd now eng folder projectId sm ?b = (ds1, eng1)"
      by fastforce
    have db: "distinct ?b" and dr: "distinct ?r" using "1.prems"(2) by simp_all
    have sb: "separated folder sm (set ?b)" and sr: "separated folder sm (set ?r)"
      using "1.prems"(3) by (auto intro: separated_subset dest: in_set_takeD in_set_dropD)
    have nb: "\<forall>f \<in> set ?b. path_join folder f \<notin> image_id ` set (images (dbManager eng))"
      using "1.prems"(4) by (auto dest: in_set_takeD)
    have ab: "agrees folder sm (set ?b) (disk eng) fs0"
      using "1.prems"(5) by (auto simp: agrees_def dest: in_set_takeD)
    have pb: "mset (order ?b) = mset ?b" using "1.prems"(6) by simp
    from process_batch_outcome [OF b pb db sb nb ab] obtain rows1 where
      e1: "sent eng1 = sent eng" "mainWindow eng1 = mainWindow eng"
        "\<forall>p. p \<notin> getThumbnailPath sm ` set ?b \<longrightarrow> disk eng1 p = disk eng p"
        "images (dbManager eng1) = images (dbManager eng) @ rows1"
        "diff_outcome cd fs0 folder projectId sm ?b ds1 rows1" by blast
    let ?eng2 = "foldl send eng1 (map FileAdded ds1)"
    have eng2: "?eng2 = eng1\<lparr>sent := sent eng @ map FileAdded ds1\<rparr>"
      using e1(1,2) "1.prems"(1) by (simp add: foldl_send)
    have w2: "mainWindow ?eng2" using e1(2) "1.prems"(1) by (simp add: eng2)
    have disj: "set ?b \<inter> set ?r = {}"
      using "1.prems"(2) by (simp add: set_take_disj_set_drop_if_distinct)
    have ids1: "image_id ` set rows1 \<subseteq> path_join folder ` set ?b"
    proof -
      from e1(5) [unfolded diff_outcome_def]
      have "mset rows1 = mset (map (stored_row cd fs0 folder projectId sm)
          (filter (processable cd fs0 folder sm) ?b))" by blast
      then have "set rows1 = set (map (stored_row cd fs0 folder projectId sm)
          (filter (processable cd fs0 folder sm) ?b))" by (rule mset_eq_setD)
      then show ?thesis by (auto simp: stored_row_def Let_def)
    qed
    have nr: "\<forall>f \<in> set ?r. path_join folder f \<notin> image_id ` set (images (dbManager ?eng2))"
    proof
      fix g assume g: "g \<in> set ?r"
      then have gn: "g \<in> set newFiles" by (auto dest: in_set_dropD)
      then have a: "path_join folder g \<notin> image_id ` set (images (dbManager eng))"
        using "1.prems"(4) by simp
      have "path_join folder g \<notin> path_join folder ` set ?b"
      proof
        assume "path_join folder g \<in> path_join folder ` set ?b"
        then obtain f where f: "f \<in> set ?b" "path_join folder g = path_join folder f" by auto
        then have "f \<in> set newFiles" by (auto dest: in_set_takeD)
        with "1.prems"(3) gn f(2) have "g = f" by (auto simp: separated_def)
        with f(1) g disj show False by auto
      qed
      with ids1 have "path_join folder g \<notin> image_id ` set rows1" by auto
      with a show "path_join folder g \<notin> image_id ` set (images (dbManager ?eng2))"
        by (auto simp: eng2 e1(4))
    qed
    have ar: "agrees folder sm (set ?r) (disk ?eng2) fs0"
      unfolding agrees_def
    proof
      fix g assume g: "g \<in> set ?r"
      then have gn: "g \<in> set newFiles" by (auto dest: in_set_dropD)
      have out: "path_join folder g \<notin> getThumbnailPath sm ` set ?b"
        "getThumbnailPath sm g \<notin> getThumbnailPath sm ` set ?b"
        "getMetadataPath sm g \<notin> getThumbnailPath sm ` set ?b"
      proof -
        have "\<And>f. f \<in> set ?b \<Longrightarrow>
            getThumbnailPath sm f \<noteq> path_join folder g \<and>
            getThumbnailPath sm f \<noteq> getThumbnailPath sm g \<and>
            getThumbnailPath sm f \<noteq> getMetadataPath sm g"
        proof -
          fix f assume f: "f \<in> set ?b"
          then have fn: "f \<in> set newFiles" by (auto dest: in_set_takeD)
          have "f \<noteq> g" using f g disj by auto
          with "1.prems"(3) fn gn show "getThumbnailPath sm f \<noteq> path_join folder g \<and>
            getThumbnailPath sm f \<noteq> getThumbnailPath sm g \<and>
            getThumbnailPath sm f \<noteq> getMetadataPath sm g"
            by (auto simp: separated_def)
        qed
        then show "path_join folder g \<notin> getThumbnailPath sm ` set ?b"
          "getThumbnailPath sm g \<notin> getThumbnailPath sm ` set ?b"
          "getMetadataPath sm g \<notin> getThumbnailPath sm ` set ?b"
          by (metis imageE)+
      qed
      from "1.prems"(5) gn have
        "disk eng (path_join folder g) = fs0 (path_join folder g) \<and>
         disk eng (getThumbnailPath sm g) = fs0 (getThumbnailPath sm g) \<and>
         disk eng (getMetadataPath sm g) = fs0 (getMetadataPath sm g)"
        by (auto simp: agrees_def)
      with out e1(3)
      show "disk ?eng2 (path_join folder g) = fs0 (path_join folder g) \<and>
            disk ?eng2 (getThumbnailPath sm g) = fs0 (getThumbnailPath sm g) \<and>
            disk ?eng2 (getMetadataPath sm g) = fs0 (getMetadataPath sm g)"
        by (simp add: eng2)
    qed
    from "1.IH" [OF False b [symmetric] w2 dr sr nr ar "1.prems"(6)] obtain ds2 rows2 where
      ih: "sent (process_new_files order cd now ?eng2 folder projectId sm ?r) =
             sent ?eng2 @ map FileAdded ds2"
        "images (dbManager (process_new_files order cd now ?eng2 folder projectId sm ?r)) =
           images (dbManager ?eng2) @ rows2"
        "diff_outcome cd fs0 folder projectId sm ?r ds2 rows2" by blast
    have step: "process_new_files order cd now eng folder projectId sm newFiles =
        process_new_files order cd now ?eng2 folder projectId sm ?r"
      using False b by (subst process_new_files.simps) simp
    from diff_outcome_append [OF e1(5) ih(3)]
    have oc: "diff_outcome cd fs0 folder projectId sm newFiles (ds1 @ ds2) (rows1 @ rows2)"
      by simp
    have s: "sent (process_new_files order cd now eng folder projectId sm newFiles) =
        sent eng @ map FileAdded (ds1 @ ds2)"
      using ih(1) by (simp add: step eng2)
    have i: "images (dbManager (process_new_files order cd now eng folder projectId sm newFiles)) =
        images (dbManager eng) @ (rows1 @ rows2)"
      using ih(2) by (simp add: step eng2 e1(4))
    from s i oc show ?thesis by blast
  qed
qed

lemma start_watching_effect:
  assumes "start_watching now eng folder = (cached, (projectId, sm, cached'), eng1)"
  shows "projectId = derive_projectId folder \<and> cached' = cached \<and>
         sent eng1 = sent eng \<and> mainWindow eng1 = mainWindow eng \<and>
         images (dbManager eng1) = images (dbManager eng) \<and>
         (project_rows eng (derive_projectId folder) = [] \<longrightarrow> cached = [])"
  using assms
  by (auto simp: start_watching_def Let_def upsertProject_def getImagesByProject_def
      project_rows_def split: option.splits)

lemma start_watching_manager:
  assumes "start_watching now eng folder = (cached, (projectId, sm, cached'), eng1)"
    and "sidecarManagers eng (derive_projectId folder) = None \<or>
         sidecarManagers eng (derive_projectId folder) = Some (SidecarManager folder)"
  shows "sm = SidecarManager folder \<and>
         (disk eng1 = disk eng \<or> disk eng1 = initialize now (SidecarManager folder) (disk eng))"
  using assms by (auto simp: start_watching_def Let_def)

lemma initialize_frame:
  "p \<noteq> path_join (sidecarRoot sm) ''.gitignore'' \<Longrightarrow> initialize now sm fs p = fs p"
  by (simp add: initialize_def Let_def write_file_def)

lemma gitignore_path:
  assumes "normal_folder d"
  shows "path_join (sidecarRoot (SidecarManager d)) ''.gitignore'' = d @ ''/.capture-open/.gitignore''"
proof -
  have c: "plain_name ''.capture-open''" and g: "plain_name ''.gitignore''"
    by (simp_all add: plain_name_def)
  have "normal_folder (d @ ''/.capture-open'')"
    using normal_folder_join [OF assms c] by simp
  from path_join_normal [OF this g] show ?thesis
    by (simp add: sidecar_paths_normal(5) [OF assms c])
qed

lemma agrees_after_start:
  assumes "normal_folder d" and "\<forall>f \<in> F. plain_name f"
    and "fs1 = fs \<or> fs1 = initialize now (SidecarManager d) fs"
  shows "agrees d (SidecarManager d) F fs1 fs"
proof -
  have "\<And>f. plain_name f \<Longrightarrow>
      path_join d f \<noteq> d @ ''/.capture-open/.gitignore'' \<and>
      getThumbnailPath (SidecarManager d) f \<noteq> d @ ''/.capture-open/.gitignore'' \<and>
      getMetadataPath (SidecarManager d) f \<noteq> d @ ''/.capture-open/.gitignore''"
    using assms(1) by (auto simp: sidecar_paths_normal path_join_normal plain_name_def)
  then show ?thesis
    using assms(2,3) initialize_frame [of _ "SidecarManager d" now fs]
    by (auto simp: agrees_def gitignore_path [OF assms(1)])
qed

lemma background_diff_outcome:
  "background_diff order cd now eng files folder projectId sm [] =
     (None, process_new_files order cd now eng folder projectId sm (filter is_image_file files))"
  by (simp add: background_diff_def set_order_def)

lemma get_image_None: "get_image db i = None \<longleftrightarrow> i \<notin> image_id ` set (images db)"
  by (auto simp: get_image_def find_None_iff)

lemma watch_and_diff_outcome:
  assumes win: "mainWindow eng" and dist: "distinct files"
    and plain: "\<forall>f \<in> set files. plain_name f"
    and norm: "normal_folder folder"
    and mgr: "sidecarManagers eng (derive_projectId folder) = None \<or>
              sidecarManagers eng (derive_projectId folder) = Some (SidecarManager folder)"
    and empty: "project_rows eng (derive_projectId folder) = []"
    and new: "\<forall>f \<in> set files. is_image_file f \<longrightarrow>
                get_image (dbManager eng) (path_join folder f) = None"
    and perm: "\<forall>b. mset (order b) = mset b"
  shows "fst (watch_and_diff order cd now eng folder files) = None \<and>
     (\<exists>ds. sent (snd (watch_and_diff order cd now eng folder files)) =
             sent eng @ map FileAdded ds \<and>
           map d_name ds = filter is_image_file files \<and>
           map degraded ds =
             map (\<lambda>f. \<not> processable cd (disk eng) folder (SidecarManager folder) f)
               (filter is_image_file files)) \<and>
     mset (project_rows (snd (watch_and_diff order cd now eng folder files))
             (derive_projectId folder)) =
       mset (map (stored_row cd (disk eng) folder (derive_projectId folder)
                    (SidecarManager folder))
               (filter (processable cd (disk eng) folder (SidecarManager folder))
                  (filter is_image_file files))) \<and>
     ((\<forall>f \<in> set files. is_image_file f \<longrightarrow>
          processable cd (disk eng) folder (SidecarManager folder) f) \<longrightarrow>
        length (project_rows (snd (watch_and_diff order cd now eng folder files))
                  (derive_projectId folder)) =
        length (filter is_image_file files))"
proof -
  let ?pid = "derive_projectId folder" and ?fs = "filter is_image_file files"
  let ?sm = "SidecarManager folder"
  obtain cached projectId sm cached' eng1 where
    sw: "start_watching now eng folder = (cached, (projectId, sm, cached'), eng1)"
    by (metis prod_cases3)
  from start_watching_effect [OF sw] empty
  have e1: "projectId = ?pid" "cached' = []" "sent eng1 = sent eng"
    "mainWindow eng1 = mainWindow eng" "images (dbManager eng1) = images (dbManager eng)"
    by auto
  from start_watching_manager [OF sw mgr]
  have sm: "sm = ?sm"
    and d1: "disk eng1 = disk eng \<or> disk eng1 = initialize now ?sm (disk eng)"
    by auto
  let ?res = "process_new_files order cd now eng1 folder ?pid ?sm ?fs"
  have wd: "watch_and_diff order cd now eng folder files = (None, ?res)"
    by (simp add: watch_and_diff_def sw e1 sm background_diff_outcome)
  have w1: "mainWindow eng1" using win e1(4) by simp
  have d: "distinct ?fs" using dist by simp
  have pl: "\<forall>f \<in> set ?fs. plain_name f" using plain by simp
  have sep: "separated folder ?sm (set ?fs)" by (rule separated_normal [OF norm pl])
  have n: "\<forall>f \<in> set ?fs. path_join folder f \<notin> image_id ` set (images (dbManager eng1))"
    using new by (simp add: e1(5) get_image_None)
  have ag: "agrees folder ?sm (set ?fs) (disk eng1) (disk eng)"
    by (rule agrees_after_start [OF norm pl d1])
  from process_new_files_outcome [OF w1 d sep n ag perm, of cd now ?pid] obtain ds rows where
    r: "sent ?res = sent eng1 @ map FileAdded ds"
      "images (dbManager ?res) = images (dbManager eng1) @ rows"
      "diff_outcome cd (disk eng) folder ?pid ?sm ?fs ds rows" by blast
  from r(3) [unfolded diff_outcome_def]
  have names: "map d_name ds = ?fs"
    and degr: "map degraded ds = map (\<lambda>f. \<not> processable cd (disk eng) folder ?sm f) ?fs"
    and ms: "mset rows = mset (map (stored_row cd (disk eng) folder ?pid ?sm)
        (filter (processable cd (disk eng) folder ?sm) ?fs))"
    by blast+
  have "set rows = set (map (stored_row cd (disk eng) folder ?pid ?sm)
        (filter (processable cd (disk eng) folder ?sm) ?fs))"
    using ms by (rule mset_eq_setD)
  then have all_pid: "filter (\<lambda>r. project_id r = ?pid) rows = rows"
    by (auto simp: filter_id_conv stored_row_def Let_def)
  have old: "filter (\<lambda>r. project_id r = ?pid) (images (dbManager eng)) = []"
    using empty by (simp add: project_rows_def)
  have pr: "project_rows ?res ?pid = rows"
    by (simp add: project_rows_def r(2) e1(5) old all_pid)
  have full: "(\<forall>f \<in> set files. is_image_file f \<longrightarrow> processable cd (disk eng) folder ?sm f)
      \<Longrightarrow> length rows = length ?fs"
  proof -
    assume "\<forall>f \<in> set files. is_image_file f \<longrightarrow> processable cd (disk eng) folder ?sm f"
    then have "\<forall>f \<in> set ?fs. processable cd (disk eng) folder ?sm f" by simp
    then have "filter (processable cd (disk eng) folder ?sm) ?fs = ?fs"
      by (simp only: filter_id_conv)
    with ms have "mset rows = mset (map (stored_row cd (disk eng) folder ?pid ?sm) ?fs)"
      by (simp only:)
    then have "length rows = length (map (stored_row cd (disk eng) folder ?pid ?sm) ?fs)"
      by (rule mset_eq_length)
    then show ?thesis by simp
  qed
  have s: "sent ?res = sent eng @ map FileAdded ds" using r(1) e1(3) by simp
  from s names degr ms full show ?thesis
    unfolding wd snd_conv fst_conv pr by blast
qed

lemma normal_album: "normal_folder ''/album''"
  by code_simp

lemmas album_paths = sidecar_paths_normal [OF normal_album] path_join_normal [OF normal_album]
  plain_name_def

lemma is_image_file_examples:
  "is_image_file ''a.jpg''" "is_image_file ''b.jpg''" "is_image_file ''c.jpg''"
  "is_image_file ''B.JPEG''" "\<not> is_image_file ''notes.txt''"
  "\<not> is_image_file ''.capture-open''"
  by code_simp+

lemma album_processable:
  "processable demo_codec (disk album_engine) ''/album'' (SidecarManager ''/album'') ''a.jpg''"
  "processable demo_codec (disk album_engine) ''/album'' (SidecarManager ''/album'') ''b.jpg''"
  by (simp_all add: processable_def album_paths album_engine_def demo_engine_def
      demo_codec_def)

lemma album_rows:
  "stored_row demo_codec (disk album_engine) ''/album'' ''_album'' (SidecarManager ''/album'')
     ''a.jpg'' =
     \<lparr>image_id = ''/album/a.jpg'', project_id = ''_album'', file_path = ''/album/a.jpg'',
      file_name = ''a.jpg'', file_size = 5, width = 800, height = 600,
      created_at = 900, modified_at = 1000, rating = 0\<rparr>"
  "stored_row demo_codec (disk album_engine) ''/album'' ''_album'' (SidecarManager ''/album'')
     ''b.jpg'' =
     \<lparr>image_id = ''/album/b.jpg'', project_id = ''_album'', file_path = ''/album/b.jpg'',
      file_name = ''b.jpg'', file_size = 5, width = 3000, height = 2000,
      created_at = 1100, modified_at = 1200, rating = 0\<rparr>"
  by (simp_all add: stored_row_def Let_def album_paths album_engine_def demo_engine_def
      demo_codec_def orZero_def orZeroInt_def)

lemma shots_not_processable:
  "\<not> processable demo_codec (disk shots_engine) ''/shots'' (SidecarManager ''/shots'') ''c.jpg''"
  by (simp add: processable_def path_defs shots_engine_def demo_engine_def demo_codec_def)

text \<open>
  Claim C3, amended. Let a folder be selected whose project has no row in the cache, with
  a window present, a listing of distinct entry names, a normalised folder path, the
  folder's own sidecar manager (or none yet), and no stored row under the path of one of
  its image files. Whatever the order in which the calls of a batch complete, when the
  diff ends it has raised no error and exactly one \<open>file-added\<close> message has been sent for
  each image file of the listing, in listing order, so N messages with no duplicate and
  none missing; the message of a file is the degraded record exactly when the file
  cannot be processed. The cache holds for the project exactly the rows of the files that
  can be processed, one each, in some order; it holds exactly N rows when every file can
  be processed.
\<close>

theorem diff_empty_cache:
  assumes "mainWindow eng" and "distinct files"
    and "\<forall>f \<in> set files. plain_name f"
    and "normal_folder folder"
    and "sidecarManagers eng (derive_projectId folder) = None \<or>
         sidecarManagers eng (derive_projectId folder) = Some (SidecarManager folder)"
    and "project_rows eng (derive_projectId folder) = []"
    and "\<forall>f \<in> set files. is_image_file f \<longrightarrow>
           get_image (dbManager eng) (path_join folder f) = None"
    and "\<forall>b. mset (order b) = mset b"
  shows "fst (watch_and_diff order cd now eng folder files) = None \<and>
     (\<exists>ds. sent (snd (watch_and_diff order cd now eng folder files)) =
             sent eng @ map FileAdded ds \<and>
           map d_name ds = filter is_image_file files \<and>
           map degraded ds =
             map (\<lambda>f. \<not> processable cd (disk eng) folder (SidecarManager folder) f)
               (filter is_image_file files)) \<and>
     mset (project_rows (snd (watch_and_diff order cd now eng folder files))
             (derive_projectId folder)) =
       mset (map (stored_row cd (disk eng) folder (derive_projectId folder)
                    (SidecarManager folder))
               (filter (processable cd (disk eng) folder (SidecarManager folder))
                  (filter is_image_file files))) \<and>
     ((\<forall>f \<in> set files. is_image_file f \<longrightarrow>
          processable cd (disk eng) folder (SidecarManager folder) f) \<longrightarrow>
        length (project_rows (snd (watch_and_diff order cd now eng folder files))
                  (derive_projectId folder)) =
        length (filter is_image_file files))"
  using assms by (rule watch_and_diff_outcome)

theorem diff_empty_cache_witness:
  "mainWindow album_engine \<and>
   distinct [''.capture-open'', ''a.jpg'', ''b.jpg'', ''notes.txt''] \<and>
   normal_folder ''/album'' \<and>
   sidecarManagers album_engine (derive_projectId ''/album'') = None \<and>
   images (dbManager album_engine) = [] \<and>
   filter is_image_file [''.capture-open'', ''a.jpg'', ''b.jpg'', ''notes.txt''] =
     [''a.jpg'', ''b.jpg''] \<and>
   fst (watch_and_diff rev demo_codec 5000 album_engine ''/album''
          [''.capture-open'', ''a.jpg'', ''b.jpg'', ''notes.txt'']) = None \<and>
   (\<exists>ds. sent (snd (watch_and_diff rev demo_codec 5000 album_engine ''/album''
                  [''.capture-open'', ''a.jpg'', ''b.jpg'', ''notes.txt''])) =
             map FileAdded ds \<and>
         map d_name ds = [''a.jpg'', ''b.jpg''] \<and>
         map degraded ds = [False, False]) \<and>
   mset (project_rows (snd (watch_and_diff rev demo_codec 5000 album_engine ''/album''
                  [''.capture-open'', ''a.jpg'', ''b.jpg'', ''notes.txt''])) ''_album'') =
     {#\<lparr>image_id = ''/album/a.jpg'', project_id = ''_album'', file_path = ''/album/a.jpg'',
        file_name = ''a.jpg'', file_size = 5, width = 800, height = 600,
        created_at = 900, modified_at = 1000, rating = 0\<rparr>,
       \<lparr>image_id = ''/album/b.jpg'', project_id = ''_album'', file_path = ''/album/b.jpg'',
        file_name = ''b.jpg'', file_size = 5, width = 3000, height = 2000,
        created_at = 1100, modified_at = 1200, rating = 0\<rparr>#} \<and>
   length (project_rows (snd (watch_and_diff rev demo_codec 5000 album_engine ''/album''
                  [''.capture-open'', ''a.jpg'', ''b.jpg'', ''notes.txt''])) ''_album'') = 2"
proof -
  let ?files = "[''.capture-open'', ''a.jpg'', ''b.jpg'', ''notes.txt'']"
  let ?res = "watch_and_diff rev demo_codec 5000 album_engine ''/album'' ?files"
  have w: "mainWindow album_engine" and s0: "sent album_engine = []"
    and i0: "images (dbManager album_engine) = []"
    and m0: "sidecarManagers album_engine (derive_projectId ''/album'') = None"
    by (simp_all add: album_engine_def demo_engine_def)
  have pid: "derive_projectId ''/album'' = ''_album''" by (simp add: derive_projectId_def)
  have d: "distinct ?files" by simp
  have pl: "\<forall>f \<in> set ?files. plain_name f" by (simp add: plain_name_def)
  have mg: "sidecarManagers album_engine (derive_projectId ''/album'') = None \<or>
      sidecarManagers album_engine (derive_projectId ''/album'') = Some (SidecarManager ''/album'')"
    using m0 by simp
  have r: "project_rows album_engine (derive_projectId ''/album'') = []"
    by (simp add: project_rows_def i0)
  have n: "\<forall>f \<in> set ?files. is_image_file f \<longrightarrow>
      get_image (dbManager album_engine) (path_join ''/album'' f) = None"
    by (simp add: get_image_def i0)
  have pm: "\<forall>b::string list. mset (rev b) = mset b" by simp
  have f: "filter is_image_file ?files = [''a.jpg'', ''b.jpg'']"
    by (simp add: is_image_file_examples)
  have allp: "\<forall>f \<in> set ?files. is_image_file f \<longrightarrow>
      processable demo_codec (disk album_engine) ''/album'' (SidecarManager ''/album'') f"
    by (simp add: is_image_file_examples album_processable)
  note th = diff_empty_cache [OF w d pl normal_album mg r n pm, of demo_codec 5000]
  from th have ok: "fst ?res = None" by blast
  from th obtain ds where
    ds: "sent (snd ?res) = sent album_engine @ map FileAdded ds"
      "map d_name ds = filter is_image_file ?files"
      "map degraded ds =
         map (\<lambda>f. \<not> processable demo_codec (disk album_engine) ''/album''
                     (SidecarManager ''/album'') f) (filter is_image_file ?files)"
    by blast
  have ex: "\<exists>ds. sent (snd ?res) = map FileAdded ds \<and> map d_name ds = [''a.jpg'', ''b.jpg''] \<and>
      map degraded ds = [False, False]"
  proof -
    have n2: "map d_name ds = [''a.jpg'', ''b.jpg'']" using ds(2) by (simp only: f)
    have g2: "map degraded ds = [False, False]"
      using ds(3) by (simp only: f list.map album_processable simp_thms)
    from ds(1) n2 g2 show ?thesis by (auto simp: s0)
  qed
  from th have "mset (project_rows (snd ?res) (derive_projectId ''/album'')) =
      mset (map (stored_row demo_codec (disk album_engine) ''/album''
                   (derive_projectId ''/album'') (SidecarManager ''/album''))
              (filter (processable demo_codec (disk album_engine) ''/album''
                         (SidecarManager ''/album'')) (filter is_image_file ?files)))"
    by blast
  then have rows: "mset (project_rows (snd ?res) ''_album'') =
     {#\<lparr>image_id = ''/album/a.jpg'', project_id = ''_album'', file_path = ''/album/a.jpg'',
        file_name = ''a.jpg'', file_size = 5, width = 800, height = 600,
        created_at = 900, modified_at = 1000, rating = 0\<rparr>,
       \<lparr>image_id = ''/album/b.jpg'', project_id = ''_album'', file_path = ''/album/b.jpg'',
        file_name = ''b.jpg'', file_size = 5, width = 3000, height = 2000,
        created_at = 1100, modified_at = 1200, rating = 0\<rparr>#}"
    unfolding pid f by (simp add: album_processable album_rows)
  from th allp have "length (project_rows (snd ?res) (derive_projectId ''/album'')) =
      length (filter is_image_file ?files)" by blast
  then have len: "length (project_rows (snd ?res) ''_album'') = 2" unfolding pid f by simp
  from w d normal_album m0 i0 f ok ex rows len show ?thesis by (simp only: simp_thms)
qed

text \<open>
  Claim C3 as stated fails when a file cannot be processed: the folder \<open>/shots\<close> holds the
  one image file \<open>c.jpg\<close>, on which the encoder fails; with an empty cache the diff sends
  one \<open>file-added\<close> message and the cache holds no row for the project.
\<close>

theorem diff_degraded_counterexample:
  "filter is_image_file [''c.jpg''] = [''c.jpg''] \<and>
   project_rows shots_engine (derive_projectId ''/shots'') = [] \<and>
   images (dbManager shots_engine) = [] \<and>
   length (sent (snd (watch_and_diff (\<lambda>b. b) demo_codec 5000 shots_engine ''/shots''
                        [''c.jpg'']))) = 1 \<and>
   project_rows (snd (watch_and_diff (\<lambda>b. b) demo_codec 5000 shots_engine ''/shots''
                        [''c.jpg''])) (derive_projectId ''/shots'') = []"
proof -
  let ?res = "watch_and_diff (\<lambda>b. b) demo_codec 5000 shots_engine ''/shots'' [''c.jpg'']"
  have w: "mainWindow shots_engine" and s0: "sent shots_engine = []"
    and i0: "images (dbManager shots_engine) = []"
    and m0: "sidecarManagers shots_engine (derive_projectId ''/shots'') = None"
    by (simp_all add: shots_engine_def demo_engine_def)
  have r: "project_rows shots_engine (derive_projectId ''/shots'') = []"
    by (simp add: project_rows_def i0)
  have f: "filter is_image_file [''c.jpg''] = [''c.jpg'']"
    by (simp add: is_image_file_examples)
  have pl: "\<forall>f \<in> set [''c.jpg'']. plain_name f" by (simp add: plain_name_def)
  have mg: "sidecarManagers shots_engine (derive_projectId ''/shots'') = None \<or>
      sidecarManagers shots_engine (derive_projectId ''/shots'') = Some (SidecarManager ''/shots'')"
    using m0 by simp
  have n: "\<forall>f \<in> set [''c.jpg'']. is_image_file f \<longrightarrow>
      get_image (dbManager shots_engine) (path_join ''/shots'' f) = None"
    by (simp add: get_image_def i0)
  have pm: "\<forall>b::string list. mset ((\<lambda>b. b) b) = mset b" by simp
  have d: "distinct [''c.jpg'']" by simp
  note th = watch_and_diff_outcome [OF w d pl normal_shots mg r n pm, of demo_codec 5000]
  from th obtain ds where
    ds: "sent (snd ?res) = sent shots_engine @ map FileAdded ds"
      "map d_name ds = filter is_image_file [''c.jpg'']" by blast
  from ds(2) have "length ds = 1" by (metis f length_map list.size(3,4) One_nat_def add_0)
  with ds(1) have one: "length (sent (snd ?res)) = 1" by (simp add: s0)
  from th have "mset (project_rows (snd ?res) (derive_projectId ''/shots'')) =
      mset (map (stored_row demo_codec (disk shots_engine) ''/shots''
                   (derive_projectId ''/shots'') (SidecarManager ''/shots''))
              (filter (processable demo_codec (disk shots_engine) ''/shots''
                         (SidecarManager ''/shots'')) (filter is_image_file [''c.jpg''])))"
    by blast
  then have none: "project_rows (snd ?res) (derive_projectId ''/shots'') = []"
    unfolding f by (simp add: shots_not_processable)
  from f r i0 one none show ?thesis by (simp only: simp_thms)
qed

text \<open>
  Claim C8, amended. The project id under which \<open>start-watching\<close> registers a folder in
  the database is computed from the folder path alone (every backslash, slash and colon
  replaced by an underscore): it does not depend on the time or on the state, so
  selecting the same folder again yields the same id, and the project row stored under
  it carries the folder path. The entry that \<open>Store.addProject\<close> adds to the project list
  has an id of its own, \<open>proj-\<close> followed by the time of the call.
\<close>

theorem start_watching_projectId:
  "fst (fst (snd (start_watching now eng folder))) = derive_projectId folder \<and>
   fst (fst (snd (start_watching now eng folder))) =
     fst (fst (snd (start_watching now' eng' folder))) \<and>
   map_option p_path
     (get_project (dbManager (snd (snd (start_watching now eng folder))))
        (derive_projectId folder)) = Some folder \<and>
   sp_id (fst (addProject st now folder)) = ''proj-'' @ number_toString now"
  by (simp add: start_watching_def Let_def get_project_upsertProject addProject_def
      split: option.splits prod.splits)

text \<open>
  Claim C8 as stated fails for \<open>Store.addProject\<close>: adding the same folder at two
  different times yields two different project ids.
\<close>

theorem addProject_id_counterexample:
  "sp_id (fst (addProject \<lparr>store_projects = []\<rparr> 1000 ''/pics'')) = ''proj-1000'' \<and>
   sp_id (fst (addProject \<lparr>store_projects = []\<rparr> 2000 ''/pics'')) = ''proj-2000'' \<and>
   sp_id (fst (addProject \<lparr>store_projects = []\<rparr> 1000 ''/pics''))
     \<noteq> sp_id (fst (addProject \<lparr>store_projects = []\<rparr> 2000 ''/pics''))"
  by (simp add: addProject_def Let_def number_toString_def digit_char_def decimal.simps)

end
